theory Spec2Isabelle
  imports Complex_Main "HOL-Library.Multiset"
begin

text \<open>
  A model of \<^verbatim>\<open>calcam/raytrace.py\<close>: the ray caster (\<^verbatim>\<open>RayCaster.raycast_pixels\<close>)
  and the ray data it produces (\<^verbatim>\<open>RayData\<close> with \<^verbatim>\<open>save\<close>, \<^verbatim>\<open>load\<close>,
  \<^verbatim>\<open>get_ray_lengths\<close> and \<^verbatim>\<open>get_ray_directions\<close>), followed by the properties
  proved of them.
\<close>

section \<open>Floating-point values\<close>

text \<open>
  The arrays of \<^verbatim>\<open>raytrace.py\<close> hold numpy floats. A value is a finite number,
  one of the two infinities, or NaN. Finite values carry the real number they stand
  for: rounding, overflow and the sign of zero are not modelled, so every statement
  below is about the special values (NaN, infinities) and the exact arithmetic of
  the finite ones.
\<close>

datatype fl = Fin real | PInf | NInf | NaN

definition isnan :: "fl \<Rightarrow> bool" where
  "isnan v = (v = NaN)"

fun isfinite :: "fl \<Rightarrow> bool" where
  "isfinite (Fin r) = True"
| "isfinite PInf = False"
| "isfinite NInf = False"
| "isfinite NaN = False"

fun fneg :: "fl \<Rightarrow> fl" where
  "fneg (Fin a) = Fin (- a)"
| "fneg PInf = NInf"
| "fneg NInf = PInf"
| "fneg NaN = NaN"

fun fadd :: "fl \<Rightarrow> fl \<Rightarrow> fl" where
  "fadd (Fin a) (Fin b) = Fin (a + b)"
| "fadd (Fin a) PInf = PInf"
| "fadd (Fin a) NInf = NInf"
| "fadd PInf (Fin b) = PInf"
| "fadd PInf PInf = PInf"
| "fadd PInf NInf = NaN"
| "fadd NInf (Fin b) = NInf"
| "fadd NInf PInf = NaN"
| "fadd NInf NInf = NInf"
| "fadd NaN b = NaN"
| "fadd a NaN = NaN"

definition fsub :: "fl \<Rightarrow> fl \<Rightarrow> fl" where
  "fsub a b = fadd a (fneg b)"

text \<open>The sign of an infinite product or quotient; a zero factor gives NaN.\<close>

definition signed_inf :: "bool \<Rightarrow> fl" where
  "signed_inf positive = (if positive then PInf else NInf)"

fun fmul :: "fl \<Rightarrow> fl \<Rightarrow> fl" where
  "fmul (Fin a) (Fin b) = Fin (a * b)"
| "fmul (Fin a) PInf = (if a = 0 then NaN else signed_inf (0 < a))"
| "fmul (Fin a) NInf = (if a = 0 then NaN else signed_inf (a < 0))"
| "fmul PInf (Fin b) = (if b = 0 then NaN else signed_inf (0 < b))"
| "fmul NInf (Fin b) = (if b = 0 then NaN else signed_inf (b < 0))"
| "fmul PInf PInf = PInf"
| "fmul PInf NInf = NInf"
| "fmul NInf PInf = NInf"
| "fmul NInf NInf = PInf"
| "fmul NaN b = NaN"
| "fmul a NaN = NaN"

text \<open>
  numpy division: a finite non-zero value over zero is an infinity (with a warning,
  not an exception), zero over zero and infinity over infinity are NaN.
\<close>

fun fdiv :: "fl \<Rightarrow> fl \<Rightarrow> fl" where
  "fdiv (Fin a) (Fin b) =
     (if b = 0 then (if a = 0 then NaN else signed_inf (0 < a)) else Fin (a / b))"
| "fdiv (Fin a) PInf = Fin 0"
| "fdiv (Fin a) NInf = Fin 0"
| "fdiv PInf (Fin b) = signed_inf (0 \<le> b)"
| "fdiv NInf (Fin b) = signed_inf (b < 0)"
| "fdiv PInf PInf = NaN"
| "fdiv PInf NInf = NaN"
| "fdiv NInf PInf = NaN"
| "fdiv NInf NInf = NaN"
| "fdiv NaN b = NaN"
| "fdiv a NaN = NaN"

text \<open>\<^verbatim>\<open>a**2\<close> on a float array squares each entry.\<close>

definition fsquare :: "fl \<Rightarrow> fl" where
  "fsquare a = fmul a a"

fun fsqrt :: "fl \<Rightarrow> fl" where
  "fsqrt (Fin a) = (if a < 0 then NaN else Fin (sqrt a))"
| "fsqrt PInf = PInf"
| "fsqrt NInf = NaN"
| "fsqrt NaN = NaN"

text \<open>Comparison \<^verbatim>\<open>a <= b\<close>: false as soon as one side is NaN.\<close>

fun fle :: "fl \<Rightarrow> fl \<Rightarrow> bool" where
  "fle (Fin a) (Fin b) = (a \<le> b)"
| "fle (Fin a) PInf = True"
| "fle (Fin a) NInf = False"
| "fle PInf (Fin b) = False"
| "fle PInf PInf = True"
| "fle PInf NInf = False"
| "fle NInf (Fin b) = True"
| "fle NInf PInf = True"
| "fle NInf NInf = True"
| "fle NaN b = False"
| "fle a NaN = False"

text \<open>\<^verbatim>\<open>a >= b\<close>, as numpy's argmin uses it.\<close>

definition fge :: "fl \<Rightarrow> fl \<Rightarrow> bool" where
  "fge a b = fle b a"

section \<open>Arrays\<close>

text \<open>
  An array is its shape and its entries in C order (last axis fastest), the order
  of \<^verbatim>\<open>flatten()\<close>. \<^verbatim>\<open>np.size\<close> is the product of the shape.
\<close>

record ndarray =
  shape :: "nat list"
  entries :: "fl list"

definition np_size :: "nat list \<Rightarrow> nat" where
  "np_size S = prod_list S"

definition wf_array :: "ndarray \<Rightarrow> bool" where
  "wf_array a = (length (entries a) = np_size (shape a))"

text \<open>
  Multi-indices of a flat position, in C order and in Fortran order (first axis
  fastest), and the flat position of a multi-index in each order.
\<close>

fun unravelC :: "nat list \<Rightarrow> nat \<Rightarrow> nat list" where
  "unravelC [] p = []"
| "unravelC (s # ss) p = (p div prod_list ss) # unravelC ss (p mod prod_list ss)"

fun ravelC :: "nat list \<Rightarrow> nat list \<Rightarrow> nat" where
  "ravelC (s # ss) (i # js) = i * prod_list ss + ravelC ss js"
| "ravelC S idx = 0"

fun unravelF :: "nat list \<Rightarrow> nat \<Rightarrow> nat list" where
  "unravelF [] p = []"
| "unravelF (s # ss) p = (p mod s) # unravelF ss (p div s)"

fun ravelF :: "nat list \<Rightarrow> nat list \<Rightarrow> nat" where
  "ravelF (s # ss) (i # js) = i + s * ravelF ss js"
| "ravelF S idx = 0"

definition f_of_c :: "nat list \<Rightarrow> nat \<Rightarrow> nat" where
  "f_of_c S c = ravelF S (unravelC S c)"

definition c_of_f :: "nat list \<Rightarrow> nat \<Rightarrow> nat" where
  "c_of_f S k = ravelC S (unravelF S k)"

section \<open>Errors\<close>

text \<open>
  Every \<^verbatim>\<open>raise\<close> of the module and every exception of a library call the
  module can run into is a value of this type. The first five are the module's own
  exceptions, under the names of its specification: the two \<^verbatim>\<open>Exception\<close>s of an
  unconfigured caster, the \<^verbatim>\<open>ValueError\<close> of \<open>x\<close> and \<open>y\<close> of different shapes,
  and the \<^verbatim>\<open>Exception\<close>s of \<^verbatim>\<open>save\<close> and of the queries. The others are raised
  by Python, numpy or scipy on behalf of the module; \<open>CorruptOrIncompatible\<close>
  stands for whatever \<^verbatim>\<open>load\<close> runs into on a file that lacks what it reads.
\<close>

datatype error =
    NotConfigured
  | ShapeMismatch
  | UnsupportedShape
  | NoStoredPixelCoordinates
  | NoNearbyRay
  | ZeroSizeReduction
  | AllNaNSlice
  | ReshapeError
  | IndexError
  | AttributeError
  | TypeError
  | IOError
  | CorruptOrIncompatible
  | ZeroDivisionError
  | LinspaceError

section \<open>Fortran-order reshaping\<close>

text \<open>
  \<^verbatim>\<open>np.reshape(a, newshape, order='F')\<close> fails when the sizes differ. Otherwise it
  reads the entries of \<^verbatim>\<open>a\<close> in Fortran order and places them into the new shape
  in Fortran order: the entry at C position \<open>c\<close> of the result is the entry of
  \<^verbatim>\<open>a\<close> whose Fortran position is the Fortran position of \<open>c\<close> in the new shape.
  The list version also serves for the boolean mask.
\<close>

definition reshape_F_list :: "nat list \<Rightarrow> nat list \<Rightarrow> 'a list \<Rightarrow> error + 'a list" where
  "reshape_F_list old new xs =
     (if np_size old \<noteq> np_size new then Inl ReshapeError
      else Inr (map (\<lambda>c. xs ! c_of_f old (f_of_c new c)) [0..<np_size new]))"

definition reshape_F :: "ndarray \<Rightarrow> nat list \<Rightarrow> error + ndarray" where
  "reshape_F a new =
     (case reshape_F_list (shape a) new (entries a) of
        Inl e \<Rightarrow> Inl e
      | Inr es \<Rightarrow> Inr \<lparr>shape = new, entries = es\<rparr>)"

text \<open>Sequencing of steps that may raise.\<close>

definition ebind :: "error + 'a \<Rightarrow> ('a \<Rightarrow> error + 'b) \<Rightarrow> error + 'b" where
  "ebind m f = (case m of Inl e \<Rightarrow> Inl e | Inr v \<Rightarrow> f v)"

section \<open>Collaborators\<close>

type_synonym vec3 = "fl \<times> fl \<times> fl"

definition nan3 :: vec3 where
  "nan3 = (NaN, NaN, NaN)"

definition vadd :: "vec3 \<Rightarrow> vec3 \<Rightarrow> vec3" where
  "vadd a b = (case a of (a0, a1, a2) \<Rightarrow> case b of (b0, b1, b2) \<Rightarrow>
     (fadd a0 b0, fadd a1 b1, fadd a2 b2))"

definition smul :: "fl \<Rightarrow> vec3 \<Rightarrow> vec3" where
  "smul l a = (case a of (a0, a1, a2) \<Rightarrow> (fmul l a0, fmul l a1, fmul l a2))"

definition vec_list :: "vec3 \<Rightarrow> fl list" where
  "vec_list a = (case a of (a0, a1, a2) \<Rightarrow> [a0, a1, a2])"

text \<open>
  Modelled from the spec: the class \<^verbatim>\<open>CoordTransformer\<close> of the module
  \<^verbatim>\<open>coordtransformer\<close>, which is not among the sources. Its data are the coordinate
  transform metadata (the ordered transform actions, the pixel counts of the original
  sensor, the pixel aspect ratio), the fields \<^verbatim>\<open>save\<close> and \<^verbatim>\<open>load\<close> read and
  write.
\<close>

record CoordTransformer =
  transform_actions :: "string list"
  x_pixels :: int
  y_pixels :: int
  pixel_aspectratio :: fl

text \<open>
  Modelled from the spec: the camera fit (\<^verbatim>\<open>FitResults\<close>, not among the sources).
  By its contract \<^verbatim>\<open>get_pupilpos\<close> and \<^verbatim>\<open>get_los_direction\<close> map the pixel
  coordinates to one 3-vector per pixel; they take the flat pixel arrays and are
  given here by what they return for one pixel.
\<close>

record FitResults =
  transform :: CoordTransformer
  image_display_shape :: "int \<times> int"
  get_pupilpos :: "fl \<Rightarrow> fl \<Rightarrow> vec3"
  get_los_direction :: "fl \<Rightarrow> fl \<Rightarrow> vec3"

datatype coords = Display | Original | OtherCoords

text \<open>
  Modelled from the spec: what the module calls and does not define, each taken as
  a parameter. The methods of \<^verbatim>\<open>CoordTransformer\<close>
  (pixelwise \<^verbatim>\<open>original_to_display_coords\<close>, and \<^verbatim>\<open>display_to_original_image\<close>
  on a whole array), \<^verbatim>\<open>eval\<close> followed by \<^verbatim>\<open>set_transform_actions\<close> on the
  stored attribute string, \<^verbatim>\<open>np.linspace\<close>, the outcome of \<^verbatim>\<open>random.shuffle\<close>,
  the contents of the memory that \<^verbatim>\<open>np.ndarray\<close> hands out uninitialised
  (entry by flat position), the directory \<^verbatim>\<open>paths.raydata\<close>, the rounding of a
  float to the single precision of an \<^verbatim>\<open>'f4'\<close> variable, and what the conversion
  to a 32-bit integer gives where C leaves it undefined (NaN, infinities, values out
  of range).
\<close>

record environment =
  original_to_display_coords :: "CoordTransformer \<Rightarrow> fl \<Rightarrow> fl \<Rightarrow> fl \<times> fl"
  display_to_original_image :: "CoordTransformer \<Rightarrow> ndarray \<Rightarrow> int option \<Rightarrow> ndarray"
  read_transform_actions :: "string \<Rightarrow> string list"
  np_linspace :: "fl \<Rightarrow> fl \<Rightarrow> fl \<Rightarrow> error + fl list"
  random_shuffle :: "nat list \<Rightarrow> nat list"
  uninitialised :: "nat \<Rightarrow> fl"
  paths_raydata :: string
  round_f4 :: "fl \<Rightarrow> fl"
  i4_out_of_range :: "fl \<Rightarrow> int"

text \<open>\<^verbatim>\<open>random.shuffle\<close> permutes the list it is given.\<close>

definition is_shuffle :: "(nat list \<Rightarrow> nat list) \<Rightarrow> bool" where
  "is_shuffle sh = (\<forall>xs. mset (sh xs) = mset xs)"

section \<open>RayData and RayCaster\<close>

text \<open>
  The fields \<^verbatim>\<open>x\<close>, \<^verbatim>\<open>y\<close> and \<^verbatim>\<open>transform\<close> of the source are \<open>rd_x\<close>,
  \<open>rd_y\<close> and \<open>rd_transform\<close> here. \<^verbatim>\<open>x\<close> and \<^verbatim>\<open>y\<close> may be \<^verbatim>\<open>None\<close>, which
  the queries test for.
\<close>

record RayData =
  ray_end_coords :: ndarray
  ray_start_coords :: ndarray
  binning :: "int option"
  rd_transform :: CoordTransformer
  fullchip :: bool
  rd_x :: "ndarray option"
  rd_y :: "ndarray option"
  ResultType :: string

text \<open>
  The caster. \<^verbatim>\<open>IntersectWithLine(p1, p2, ...)\<close> of the cell locator (VTK) returns a
  non-zero value and fills \<^verbatim>\<open>pos\<close> on a hit: \<open>Some pos\<close>; zero when the segment
  misses: \<open>None\<close>. The test of the source is \<^verbatim>\<open>abs(retval) > 0\<close>.
\<close>

record RayCaster =
  fitresults :: "FitResults option"
  vtkCellLocator :: "(vec3 \<Rightarrow> vec3 \<Rightarrow> vec3 option) option"
  max_ray_length :: fl

subsection \<open>Rows of an N-by-3 array\<close>

definition row :: "ndarray \<Rightarrow> nat \<Rightarrow> vec3" where
  "row a i = (entries a ! (3 * i), entries a ! (3 * i + 1), entries a ! (3 * i + 2))"

definition set_row :: "ndarray \<Rightarrow> nat \<Rightarrow> vec3 \<Rightarrow> ndarray" where
  "set_row a i v = (case v of (v0, v1, v2) \<Rightarrow>
     a\<lparr>entries := (entries a)[3 * i := v0, 3 * i + 1 := v1, 3 * i + 2 := v2]\<rparr>)"

definition rows_array :: "vec3 list \<Rightarrow> ndarray" where
  "rows_array rs = \<lparr>shape = [length rs, 3], entries = concat (map vec_list rs)\<rparr>"

subsection \<open>The pixels to cast\<close>

text \<open>\<^verbatim>\<open>np.meshgrid(xl, yl)\<close>: both results have shape \<open>(len yl, len xl)\<close>.\<close>

definition meshgrid :: "fl list \<Rightarrow> fl list \<Rightarrow> ndarray \<times> ndarray" where
  "meshgrid xl yl =
     (\<lparr>shape = [length yl, length xl], entries = concat (map (\<lambda>v. xl) yl)\<rparr>,
      \<lparr>shape = [length yl, length xl], entries = concat (map (\<lambda>v. map (\<lambda>u. v) xl) yl)\<rparr>)"

definition to_display :: "environment \<Rightarrow> CoordTransformer \<Rightarrow> ndarray \<Rightarrow> ndarray \<Rightarrow> ndarray \<times> ndarray" where
  "to_display env t x y =
     (let ps = map (\<lambda>(u, v). original_to_display_coords env t u v) (zip (entries x) (entries y))
      in (\<lparr>shape = shape x, entries = map fst ps\<rparr>, \<lparr>shape = shape y, entries = map snd ps\<rparr>))"

text \<open>
  The grid of a full-chip cast along one axis of \<open>n\<close> pixels: the arguments the
  source gives to \<^verbatim>\<open>np.linspace\<close>. The division by \<^verbatim>\<open>binning\<close> is a Python float
  division and raises on zero.
\<close>

definition chip_axis :: "environment \<Rightarrow> int \<Rightarrow> int \<Rightarrow> error + fl list" where
  "chip_axis env bin n =
     (if bin = 0 then Inl ZeroDivisionError
      else np_linspace env
             (Fin ((real_of_int bin - 1) / 2))
             (Fin (real_of_int (n - 1) - (real_of_int bin - 1) / 2))
             (Fin ((1 + real_of_int (n - 1)) / real_of_int bin)))"

text \<open>
  The first part of \<^verbatim>\<open>raycast_pixels\<close>: the pixel arrays in display coordinates,
  the validity mask (in C order, as the arrays) and the \<^verbatim>\<open>fullchip\<close> flag. \<open>None\<close>
  stands for \<^verbatim>\<open>x\<close> and \<^verbatim>\<open>y\<close> both omitted.
\<close>

definition pixel_batch ::
  "environment \<Rightarrow> FitResults \<Rightarrow> (ndarray \<times> ndarray) option \<Rightarrow> int \<Rightarrow> coords
   \<Rightarrow> error + (ndarray \<times> ndarray \<times> bool list \<times> bool)" where
  "pixel_batch env fr xy bin cs =
     (case xy of
        None \<Rightarrow>
          (let (w, h) = (if cs = Display then image_display_shape fr
                         else (x_pixels (transform fr), y_pixels (transform fr)))
           in case chip_axis env bin w of
                Inl e \<Rightarrow> Inl e
              | Inr xl \<Rightarrow>
                  (case chip_axis env bin h of
                     Inl e \<Rightarrow> Inl e
                   | Inr yl \<Rightarrow>
                       (let (x, y) = meshgrid xl yl;
                            (x, y) = (if cs = Display then (x, y)
                                      else to_display env (transform fr) x y)
                        in Inr (x, y, replicate (np_size (shape x)) True, True))))
      | Some (x, y) \<Rightarrow>
          if shape x \<noteq> shape y then Inl ShapeMismatch
          else
            (let valid_mask = map (\<lambda>(u, v). \<not> isnan u \<and> \<not> isnan v) (zip (entries x) (entries y));
                 (x, y) = (if cs = Original then to_display env (transform fr) x y else (x, y))
             in Inr (x, y, valid_mask, False)))"

subsection \<open>The casting loop\<close>

text \<open>
  The state the loop works on: the two result arrays (N by 3), the counter
  \<^verbatim>\<open>n_done\<close>, and the indices for which \<^verbatim>\<open>IntersectWithLine\<close> was called, in the
  order of the calls. The progress messages are not modelled.
\<close>

record cast_state =
  st_ray_end_coords :: ndarray
  st_ray_start_coords :: ndarray
  n_done :: nat
  casts :: "nat list"

definition cast_step ::
  "(vec3 \<Rightarrow> vec3 \<Rightarrow> vec3 option) \<Rightarrow> fl \<Rightarrow> ndarray \<Rightarrow> bool list \<Rightarrow> nat \<Rightarrow> cast_state \<Rightarrow> cast_state" where
  "cast_step IntersectWithLine maxlen LOSDir valid_mask ind s =
     (if \<not> valid_mask ! ind then
        s\<lparr>st_ray_end_coords := set_row (st_ray_end_coords s) ind nan3,
          st_ray_start_coords := set_row (st_ray_start_coords s) ind nan3\<rparr>
      else
        (let rayend = vadd (row (st_ray_start_coords s) ind) (smul maxlen (row LOSDir ind));
             retval = IntersectWithLine (row (st_ray_start_coords s) ind) rayend
         in s\<lparr>st_ray_end_coords :=
                 set_row (st_ray_end_coords s) ind (case retval of Some pos \<Rightarrow> pos | None \<Rightarrow> rayend),
               n_done := n_done s + 1,
               casts := casts s @ [ind]\<rparr>))"

definition cast_loop ::
  "(vec3 \<Rightarrow> vec3 \<Rightarrow> vec3 option) \<Rightarrow> fl \<Rightarrow> ndarray \<Rightarrow> bool list \<Rightarrow> nat list \<Rightarrow> cast_state \<Rightarrow> cast_state" where
  "cast_loop IntersectWithLine maxlen LOSDir valid_mask inds s =
     fold (cast_step IntersectWithLine maxlen LOSDir valid_mask) inds s"

subsection \<open>raycast_pixels\<close>

text \<open>
  The whole of \<^verbatim>\<open>raycast_pixels\<close>, returning the RayData together with the final
  loop state (for statements about which pixels were cast).
\<close>

definition raycast_run ::
  "environment \<Rightarrow> RayCaster \<Rightarrow> (ndarray \<times> ndarray) option \<Rightarrow> int \<Rightarrow> coords
   \<Rightarrow> error + (RayData \<times> cast_state)" where
  "raycast_run env rc xy bin cs =
     (case fitresults rc of
        None \<Rightarrow> Inl NotConfigured
      | Some fr \<Rightarrow>
     (case vtkCellLocator rc of
        None \<Rightarrow> Inl NotConfigured
      | Some locator \<Rightarrow>
     ebind (pixel_batch env fr xy bin cs) (\<lambda>(x, y, valid_mask, full).
       let orig_shape = shape x;
           n = np_size orig_shape;
           x0 = map (\<lambda>(v, ok). if ok then v else Fin 0) (zip (entries x) valid_mask);
           y0 = map (\<lambda>(v, ok). if ok then v else Fin 0) (zip (entries y) valid_mask)
       in
     ebind (reshape_F_list orig_shape [n] x0) (\<lambda>xF.
     ebind (reshape_F_list orig_shape [n] y0) (\<lambda>yF.
     ebind (reshape_F_list orig_shape [n] valid_mask) (\<lambda>maskF.
       let LOSDir = rows_array (map (\<lambda>(u, v). get_los_direction fr u v) (zip xF yF));
           s0 = \<lparr>st_ray_end_coords =
                   \<lparr>shape = [n, 3], entries = map (uninitialised env) [0..<n * 3]\<rparr>,
                 st_ray_start_coords =
                   rows_array (map (\<lambda>(u, v). get_pupilpos fr u v) (zip xF yF)),
                 n_done = 0,
                 casts = []\<rparr>;
           inds = random_shuffle env [0..<n];
           s = cast_loop locator (max_ray_length rc) LOSDir maskF inds s0;
           xN = map (\<lambda>(v, ok). if ok then v else NaN) (zip xF maskF);
           yN = map (\<lambda>(v, ok). if ok then v else NaN) (zip yF maskF)
       in
     ebind (reshape_F (st_ray_end_coords s) (orig_shape @ [3])) (\<lambda>rend.
     ebind (reshape_F (st_ray_start_coords s) (orig_shape @ [3])) (\<lambda>rstart.
     ebind (reshape_F \<lparr>shape = [n], entries = xN\<rparr> orig_shape) (\<lambda>rx.
     ebind (reshape_F \<lparr>shape = [n], entries = yN\<rparr> orig_shape) (\<lambda>ry.
       Inr (\<lparr>ray_end_coords = rend,
             ray_start_coords = rstart,
             binning = (if full then Some bin else None),
             rd_transform = transform fr,
             fullchip = full,
             rd_x = Some rx,
             rd_y = Some ry,
             ResultType = ''PixelRayCast''\<rparr>, s)))))))))))"

definition raycast_pixels ::
  "environment \<Rightarrow> RayCaster \<Rightarrow> (ndarray \<times> ndarray) option \<Rightarrow> int \<Rightarrow> coords \<Rightarrow> error + RayData" where
  "raycast_pixels env rc xy bin cs = map_sum id fst (raycast_run env rc xy bin cs)"

section \<open>Queries on RayData\<close>

text \<open>
  The queries and \<^verbatim>\<open>save\<close> are given here for RayData whose arrays fit together:
  ray ends and ray starts of one shape \<open>S @ [3]\<close>, stored pixel arrays of shape \<open>S\<close>.
  (On other values numpy broadcasts or raises; that is not modelled.)
\<close>

definition wf_raydata :: "RayData \<Rightarrow> bool" where
  "wf_raydata rd =
     (\<exists>S. shape (ray_end_coords rd) = S @ [3] \<and> shape (ray_start_coords rd) = S @ [3]
          \<and> wf_array (ray_end_coords rd) \<and> wf_array (ray_start_coords rd)
          \<and> (case rd_x rd of None \<Rightarrow> True
              | Some sx \<Rightarrow> wf_array sx \<and> shape sx = S)
          \<and> (case rd_y rd of None \<Rightarrow> True
              | Some sy \<Rightarrow> wf_array sy \<and> shape sy = S))"

subsection \<open>numpy reductions\<close>

text \<open>
  \<^verbatim>\<open>np.min\<close> propagates NaN, \<^verbatim>\<open>np.nanmin\<close> skips it (and is NaN when every entry
  is); both raise on an empty array. \<^verbatim>\<open>np.argmin\<close> returns the first position of
  the minimum, where a NaN counts as smaller than everything: it scans with the
  test \<^verbatim>\<open>!(v >= best)\<close> and stops at the first NaN. \<^verbatim>\<open>np.nanargmin\<close> replaces
  NaN by \<open>+inf\<close> and takes the argmin, raising when every entry is NaN.
\<close>

definition np_minimum :: "fl \<Rightarrow> fl \<Rightarrow> fl" where
  "np_minimum a b = (if isnan a \<or> isnan b then NaN else if fle a b then a else b)"

definition np_fmin :: "fl \<Rightarrow> fl \<Rightarrow> fl" where
  "np_fmin a b = (if isnan a then b else if isnan b then a else if fle a b then a else b)"

definition np_min :: "fl list \<Rightarrow> error + fl" where
  "np_min vs = (case vs of [] \<Rightarrow> Inl ZeroSizeReduction | v # ws \<Rightarrow> Inr (foldl np_minimum v ws))"

definition np_nanmin :: "fl list \<Rightarrow> error + fl" where
  "np_nanmin vs = (case vs of [] \<Rightarrow> Inl ZeroSizeReduction | v # ws \<Rightarrow> Inr (foldl np_fmin v ws))"

fun argmin_scan :: "fl \<Rightarrow> nat \<Rightarrow> nat \<Rightarrow> fl list \<Rightarrow> nat" where
  "argmin_scan mp mi i [] = mi"
| "argmin_scan mp mi i (v # vs) =
     (if isnan mp then mi
      else if \<not> fge v mp then argmin_scan v i (Suc i) vs
      else argmin_scan mp mi (Suc i) vs)"

definition np_argmin :: "fl list \<Rightarrow> error + nat" where
  "np_argmin vs = (case vs of [] \<Rightarrow> Inl ZeroSizeReduction | v # ws \<Rightarrow> Inr (argmin_scan v 0 1 ws))"

definition np_nanargmin :: "fl list \<Rightarrow> error + nat" where
  "np_nanargmin vs =
     (if vs \<noteq> [] \<and> list_all isnan vs then Inl AllNaNSlice
      else np_argmin (map (\<lambda>v. if isnan v then PInf else v) vs))"

subsection \<open>get_ray_lengths\<close>

text \<open>
  \<^verbatim>\<open>np.sqrt(np.sum((end - start)**2, axis=-1))\<close>: one length per pixel, in the
  leading shape of the ray arrays.
\<close>

definition RayLength_of :: "RayData \<Rightarrow> ndarray" where
  "RayLength_of rd =
     (let d = map (\<lambda>(e, s). fsquare (fsub e s))
                (zip (entries (ray_end_coords rd)) (entries (ray_start_coords rd)));
          m = last (shape (ray_end_coords rd));
          lead = butlast (shape (ray_end_coords rd))
      in \<lparr>shape = lead,
          entries = map (\<lambda>i. fsqrt (foldl fadd (Fin 0) (map (\<lambda>k. d ! (i * m + k)) [0..<m])))
                      [0..<np_size lead]\<rparr>)"

text \<open>The distances of one query pixel to every stored pixel.\<close>

definition deltaR_of :: "fl list \<Rightarrow> fl list \<Rightarrow> fl \<Rightarrow> fl \<Rightarrow> fl list" where
  "deltaR_of xflat yflat qx qy =
     map (\<lambda>(sx, sy). fsqrt (fadd (fsquare (fsub sx qx)) (fsquare (fsub sy qy)))) (zip xflat yflat)"

text \<open>The body of the loop over the query pixels, and the loop.\<close>

definition length_at :: "fl list \<Rightarrow> fl list \<Rightarrow> fl list \<Rightarrow> fl \<Rightarrow> fl \<times> fl \<Rightarrow> error + fl" where
  "length_at RayLength xflat yflat PositionTol q =
     (case q of (qx, qy) \<Rightarrow>
        if isnan qx \<or> isnan qy then Inr NaN
        else
          (let deltaR = deltaR_of xflat yflat qx qy
           in ebind (np_nanmin deltaR) (\<lambda>m.
                if fle m PositionTol then
                  ebind (np_nanargmin deltaR) (\<lambda>k.
                    if k < length RayLength then Inr (RayLength ! k) else Inl IndexError)
                else Inl NoNearbyRay)))"

fun query_loop :: "('q \<Rightarrow> error + 'v) \<Rightarrow> 'q list \<Rightarrow> error + 'v list" where
  "query_loop body [] = Inr []"
| "query_loop body (q # qs) =
     ebind (body q) (\<lambda>v. ebind (query_loop body qs) (\<lambda>vs. Inr (v # vs)))"

definition get_ray_lengths ::
  "environment \<Rightarrow> RayData \<Rightarrow> (ndarray \<times> ndarray) option \<Rightarrow> fl \<Rightarrow> coords \<Rightarrow> error + ndarray" where
  "get_ray_lengths env rd xy PositionTol cs =
     (let RayLength = RayLength_of rd
      in case xy of
           None \<Rightarrow>
             (if fullchip rd then
                (if cs = Display then Inr RayLength
                 else Inr (display_to_original_image env (rd_transform rd) RayLength (binning rd)))
              else Inr RayLength)
         | Some (x, y) \<Rightarrow>
             (case (rd_x rd, rd_y rd) of
                (Some sx, Some sy) \<Rightarrow>
                  if shape x \<noteq> shape y then Inl ShapeMismatch
                  else
                    (let (x, y) = (if cs = Original then to_display env (rd_transform rd) x y
                                   else (x, y));
                         orig_shape = shape x;
                         n = np_size orig_shape
                     in ebind (reshape_F_list orig_shape [n] (entries x)) (\<lambda>xq.
                        ebind (reshape_F_list orig_shape [n] (entries y)) (\<lambda>yq.
                        ebind (query_loop
                                 (length_at (entries RayLength) (entries sx) (entries sy) PositionTol)
                                 (zip xq yq)) (\<lambda>RL.
                        reshape_F \<lparr>shape = [n], entries = RL\<rparr> orig_shape))))
              | _ \<Rightarrow> Inl NoStoredPixelCoordinates))"

subsection \<open>get_ray_directions\<close>

definition direction_at ::
  "fl list \<Rightarrow> fl list \<Rightarrow> fl list \<Rightarrow> fl list \<Rightarrow> fl list \<Rightarrow> fl \<Rightarrow> fl \<times> fl \<Rightarrow> error + vec3" where
  "direction_at dirs_X dirs_Y dirs_Z xflat yflat PositionTol q =
     (case q of (qx, qy) \<Rightarrow>
        (let deltaR = deltaR_of xflat yflat qx qy
         in ebind (np_min deltaR) (\<lambda>m.
              if fle m PositionTol then
                ebind (np_argmin deltaR) (\<lambda>k.
                  if k < length dirs_X \<and> k < length dirs_Y \<and> k < length dirs_Z
                  then Inr (dirs_X ! k, dirs_Y ! k, dirs_Z ! k) else Inl IndexError)
              else Inl NoNearbyRay)))"

text \<open>
  \<^verbatim>\<open>dirs\<close>: the difference of ends and starts over the lengths, each length repeated
  along the last axis. There is no test for a zero length.
\<close>

definition dirs_of :: "RayData \<Rightarrow> ndarray \<Rightarrow> ndarray" where
  "dirs_of rd lengths =
     \<lparr>shape = shape (ray_end_coords rd),
      entries = map (\<lambda>(d, l). fdiv d l)
                  (zip (map (\<lambda>(e, s). fsub e s)
                          (zip (entries (ray_end_coords rd)) (entries (ray_start_coords rd))))
                       (concat (map (\<lambda>l. replicate 3 l) (entries lengths))))\<rparr>"

text \<open>One of the three parts of \<^verbatim>\<open>np.split(dirs, 3, -1)\<close>, flattened.\<close>

definition split_part :: "ndarray \<Rightarrow> nat \<Rightarrow> fl list" where
  "split_part dirs k = map (\<lambda>i. entries dirs ! (3 * i + k)) [0..<length (entries dirs) div 3]"

definition get_ray_directions ::
  "environment \<Rightarrow> RayData \<Rightarrow> (ndarray \<times> ndarray) option \<Rightarrow> fl \<Rightarrow> coords \<Rightarrow> error + ndarray" where
  "get_ray_directions env rd xy PositionTol cs =
     ebind (get_ray_lengths env rd None (Fin 3) Display) (\<lambda>lengths.
       let dirs = dirs_of rd lengths
       in case xy of
            None \<Rightarrow>
              (if fullchip rd then
                 (if cs = Display then Inr dirs
                  else Inr (display_to_original_image env (rd_transform rd) dirs (binning rd)))
               else Inr dirs)
          | Some (x, y) \<Rightarrow>
              (case (rd_x rd, rd_y rd) of
                 (Some sx, Some sy) \<Rightarrow>
                   if shape x \<noteq> shape y then Inl ShapeMismatch
                   else
                     (let (x, y) = (if cs = Original then to_display env (rd_transform rd) x y
                                    else (x, y));
                          oldshape = shape x;
                          n = np_size oldshape
                      in ebind (reshape_F_list oldshape [n] (entries x)) (\<lambda>xq.
                         ebind (reshape_F_list oldshape [n] (entries y)) (\<lambda>yq.
                         ebind (query_loop
                                  (direction_at (split_part dirs 0) (split_part dirs 1)
                                     (split_part dirs 2) (entries sx) (entries sy) PositionTol)
                                  (zip xq yq)) (\<lambda>out.
                         reshape_F
                           \<lparr>shape = [n * 3],
                            entries = map fst out @ map (fst \<circ> snd) out @ map (snd \<circ> snd) out\<rparr>
                           (oldshape @ [3])))))
               | _ \<Rightarrow> Inl NoStoredPixelCoordinates))"

section \<open>Persistence\<close>

text \<open>
  A netCDF file as \<^verbatim>\<open>netcdf_file\<close> of scipy presents it: attributes, named
  dimensions, and named variables, each with its dimensions, its values in the
  variable's storage type (\<^verbatim>\<open>'f4'\<close> or \<^verbatim>\<open>'i4'\<close>) and its units. A variable gives
  back what was assigned to it, converted to its storage type. Lists are in the order
  of creation. \<open>closed\<close> tells whether \<^verbatim>\<open>close()\<close> was called: opening a file for
  writing creates or truncates it at once, and what was set on the object reaches the
  disk when the file is closed or the object is finalised. Dimensions of length zero
  (record dimensions to the library) are not modelled: the statements exclude them.
\<close>

datatype nc_values = F4 "fl list" | I4 "int list"

record nc_variable =
  nc_dims :: "string list"
  nc_values :: nc_values
  nc_units :: string

record netcdf_file =
  attributes :: "(string \<times> string) list"
  dimensions :: "(string \<times> nat) list"
  variables :: "(string \<times> nc_variable) list"
  closed :: bool

text \<open>
  Conversion of a float to a 32-bit integer truncates towards zero; the conversion of
  an integer keeps it when it is in range.
\<close>

definition trunc :: "real \<Rightarrow> int" where
  "trunc r = (if 0 \<le> r then \<lfloor>r\<rfloor> else \<lceil>r\<rceil>)"

definition to_i4 :: "environment \<Rightarrow> fl \<Rightarrow> int" where
  "to_i4 env v =
     (case v of
        Fin r \<Rightarrow> if - 2147483648 \<le> trunc r \<and> trunc r \<le> 2147483647 then trunc r
                 else i4_out_of_range env v
      | _ \<Rightarrow> i4_out_of_range env v)"

definition int_to_i4 :: "environment \<Rightarrow> int \<Rightarrow> int" where
  "int_to_i4 env b = to_i4 env (Fin (real_of_int b))"

text \<open>
  \<^verbatim>\<open>"['" + "','".join(actions) + "']"\<close>, and the path
  \<^verbatim>\<open>os.path.join(paths.raydata, SaveName + '.nc')\<close>.
\<close>

definition apostrophe :: char where
  "apostrophe = CHR 0x27"

fun join :: "string \<Rightarrow> string list \<Rightarrow> string" where
  "join sep [] = []"
| "join sep [s] = s"
| "join sep (s # t # ts) = s @ sep @ join sep (t # ts)"

definition actions_string :: "string list \<Rightarrow> string" where
  "actions_string acts =
     [CHR ''['', apostrophe] @ join [apostrophe, CHR '','', apostrophe] acts
       @ [apostrophe, CHR '']'']"

definition os_path_join :: "string \<Rightarrow> string \<Rightarrow> string" where
  "os_path_join a b =
     (if b \<noteq> [] \<and> hd b = CHR ''/'' then b
      else if a = [] \<or> last a = CHR ''/'' then a @ b
      else a @ ''/'' @ b)"

definition nc_path :: "environment \<Rightarrow> string \<Rightarrow> string" where
  "nc_path env SaveName = os_path_join (paths_raydata env) (SaveName @ ''.nc'')"

subsection \<open>save\<close>

text \<open>The file object right after the attributes and \<^verbatim>\<open>pointdim\<close> are set.\<close>

definition save_header :: "RayData \<Rightarrow> netcdf_file" where
  "save_header rd =
     \<lparr>attributes = [(''history'', ''CalCam_py output file''),
                    (''image_transform_actions'',
                       actions_string (transform_actions (rd_transform rd))),
                    (''ResultType'', ResultType rd)],
      dimensions = [(''pointdim'', 3)],
      variables = [],
      closed = False\<rparr>"

text \<open>
  What follows the branch on the rank of \<^verbatim>\<open>self.x\<close>: the remaining variables, the
  units, and \<^verbatim>\<open>close()\<close>. \<open>gdims\<close> are the dimensions of the pixel grid.
\<close>

definition save_rest ::
  "environment \<Rightarrow> RayData \<Rightarrow> netcdf_file \<Rightarrow> string list \<Rightarrow> fl list \<Rightarrow> fl list \<Rightarrow> netcdf_file" where
  "save_rest env rd f gdims xs ys =
     f\<lparr>dimensions := dimensions f @ [(''pixelsdim'', 2)],
       variables := variables f @
         [(''RayEndCoords'',
             \<lparr>nc_dims = gdims @ [''pointdim''],
              nc_values = F4 (map (round_f4 env) (entries (ray_end_coords rd))),
              nc_units = ''m''\<rparr>),
          (''RayStartCoords'',
             \<lparr>nc_dims = gdims @ [''pointdim''],
              nc_values = F4 (map (round_f4 env) (entries (ray_start_coords rd))),
              nc_units = ''m''\<rparr>),
          (''PixelXLocation'',
             \<lparr>nc_dims = gdims, nc_values = I4 (map (to_i4 env) xs), nc_units = ''pixels''\<rparr>),
          (''PixelYLocation'',
             \<lparr>nc_dims = gdims, nc_values = I4 (map (to_i4 env) ys), nc_units = ''pixels''\<rparr>),
          (''Binning'',
             \<lparr>nc_dims = [],
              nc_values = I4 [case binning rd of Some b \<Rightarrow> int_to_i4 env b | None \<Rightarrow> 0],
              nc_units = ''pixels''\<rparr>),
          (''image_original_shape'',
             \<lparr>nc_dims = [''pixelsdim''],
              nc_values = I4 [int_to_i4 env (x_pixels (rd_transform rd)),
                              int_to_i4 env (y_pixels (rd_transform rd))],
              nc_units = []\<rparr>),
          (''image_original_pixel_aspect'',
             \<lparr>nc_dims = [],
              nc_values = F4 [round_f4 env (pixel_aspectratio (rd_transform rd))],
              nc_units = []\<rparr>)],
       closed := True\<rparr>"

text \<open>
  The file object when the assignment of \<^verbatim>\<open>self.y\<close> raises because it is
  \<^verbatim>\<open>None\<close>: the four grid variables exist, without units yet, the y variable with
  the uninitialised memory it was created with.
\<close>

definition save_before_y ::
  "environment \<Rightarrow> RayData \<Rightarrow> netcdf_file \<Rightarrow> string list \<Rightarrow> fl list \<Rightarrow> netcdf_file" where
  "save_before_y env rd f gdims xs =
     f\<lparr>variables := variables f @
         [(''RayEndCoords'',
             \<lparr>nc_dims = gdims @ [''pointdim''],
              nc_values = F4 (map (round_f4 env) (entries (ray_end_coords rd))),
              nc_units = []\<rparr>),
          (''RayStartCoords'',
             \<lparr>nc_dims = gdims @ [''pointdim''],
              nc_values = F4 (map (round_f4 env) (entries (ray_start_coords rd))),
              nc_units = []\<rparr>),
          (''PixelXLocation'',
             \<lparr>nc_dims = gdims, nc_values = I4 (map (to_i4 env) xs), nc_units = []\<rparr>),
          (''PixelYLocation'',
             \<lparr>nc_dims = gdims,
              nc_values = I4 (map (\<lambda>k. to_i4 env (uninitialised env k)) [0..<length xs]),
              nc_units = []\<rparr>)]\<rparr>"

text \<open>
  \<^verbatim>\<open>save\<close> on a file system (the files by path): the outcome and the file system
  afterwards. The file is opened before anything is tested, so every outcome leaves
  a file at the path. Without \<^verbatim>\<open>self.x\<close> the test of its shape raises; without
  \<^verbatim>\<open>self.y\<close> the assignment of the y variable does.
\<close>

definition save ::
  "environment \<Rightarrow> (string \<rightharpoonup> netcdf_file) \<Rightarrow> RayData \<Rightarrow> string
   \<Rightarrow> (error + unit) \<times> (string \<rightharpoonup> netcdf_file)" where
  "save env fs rd SaveName =
     (let path = nc_path env SaveName;
          f = save_header rd
      in case rd_x rd of
           None \<Rightarrow> (Inl AttributeError, fs(path \<mapsto> f))
         | Some sx \<Rightarrow>
             if length (shape sx) = 2 then
               (case rd_y rd of
                  None \<Rightarrow>
                    (Inl TypeError,
                     fs(path \<mapsto>
                        save_before_y env rd
                          (f\<lparr>dimensions := dimensions f @
                               [(''udim'', shape sx ! 1), (''vdim'', shape sx ! 0)]\<rparr>)
                          [''vdim'', ''udim''] (entries sx)))
                | Some sy \<Rightarrow>
                    (Inr (),
                     fs(path \<mapsto>
                        save_rest env rd
                          (f\<lparr>dimensions := dimensions f @
                               [(''udim'', shape sx ! 1), (''vdim'', shape sx ! 0)]\<rparr>)
                          [''vdim'', ''udim''] (entries sx) (entries sy))))
             else if length (shape sx) = 1 then
               (case rd_y rd of
                  None \<Rightarrow>
                    (Inl TypeError,
                     fs(path \<mapsto>
                        save_before_y env rd
                          (f\<lparr>dimensions := dimensions f @ [(''udim'', np_size (shape sx))]\<rparr>)
                          [''udim''] (entries sx)))
                | Some sy \<Rightarrow>
                    (Inr (),
                     fs(path \<mapsto>
                        save_rest env rd
                          (f\<lparr>dimensions := dimensions f @ [(''udim'', np_size (shape sx))]\<rparr>)
                          [''udim''] (entries sx) (entries sy))))
             else (Inl UnsupportedShape, fs(path \<mapsto> f)))"

subsection \<open>load\<close>

text \<open>
  Reading a variable gives an array of the shape its dimensions say. \<^verbatim>\<open>load\<close> is
  given for files of the layout \<^verbatim>\<open>save\<close> writes; a missing attribute, variable or
  dimension, and a variable of another storage type or rank than \<^verbatim>\<open>save\<close> gives it,
  are reported as \<open>CorruptOrIncompatible\<close>.
\<close>

definition nc_attr :: "netcdf_file \<Rightarrow> string \<Rightarrow> error + string" where
  "nc_attr f name =
     (case map_of (attributes f) name of None \<Rightarrow> Inl CorruptOrIncompatible | Some v \<Rightarrow> Inr v)"

fun nc_shape :: "netcdf_file \<Rightarrow> string list \<Rightarrow> error + nat list" where
  "nc_shape f [] = Inr []"
| "nc_shape f (d # ds) =
     (case map_of (dimensions f) d of
        None \<Rightarrow> Inl CorruptOrIncompatible
      | Some n \<Rightarrow> ebind (nc_shape f ds) (\<lambda>S. Inr (n # S)))"

definition nc_f4 :: "netcdf_file \<Rightarrow> string \<Rightarrow> error + ndarray" where
  "nc_f4 f name =
     (case map_of (variables f) name of
        None \<Rightarrow> Inl CorruptOrIncompatible
      | Some v \<Rightarrow>
          (case nc_values v of
             F4 vs \<Rightarrow> ebind (nc_shape f (nc_dims v)) (\<lambda>S. Inr \<lparr>shape = S, entries = vs\<rparr>)
           | I4 ws \<Rightarrow> Inl CorruptOrIncompatible))"

definition nc_i4 :: "netcdf_file \<Rightarrow> string \<Rightarrow> error + nat list \<times> int list" where
  "nc_i4 f name =
     (case map_of (variables f) name of
        None \<Rightarrow> Inl CorruptOrIncompatible
      | Some v \<Rightarrow>
          (case nc_values v of
             I4 ws \<Rightarrow> ebind (nc_shape f (nc_dims v)) (\<lambda>S. Inr (S, ws))
           | F4 vs \<Rightarrow> Inl CorruptOrIncompatible))"

definition int_array :: "nat list \<times> int list \<Rightarrow> ndarray" where
  "int_array a = \<lparr>shape = fst a, entries = map (\<lambda>i. Fin (real_of_int i)) (snd a)\<rparr>"

definition load :: "environment \<Rightarrow> (string \<rightharpoonup> netcdf_file) \<Rightarrow> string \<Rightarrow> error + RayData" where
  "load env fs SaveName =
     (case fs (nc_path env SaveName) of
        None \<Rightarrow> Inl IOError
      | Some f \<Rightarrow>
          ebind (nc_attr f ''ResultType'') (\<lambda>rt.
          ebind (nc_f4 f ''RayEndCoords'') (\<lambda>rend.
          ebind (nc_f4 f ''RayStartCoords'') (\<lambda>rstart.
          ebind (nc_i4 f ''Binning'') (\<lambda>b.
            if length (snd b) \<noteq> 1 then Inl CorruptOrIncompatible
            else
          ebind (nc_i4 f ''PixelXLocation'') (\<lambda>x.
          ebind (nc_i4 f ''PixelYLocation'') (\<lambda>y.
          ebind (nc_attr f ''image_transform_actions'') (\<lambda>acts.
          ebind (nc_i4 f ''image_original_shape'') (\<lambda>orig.
            if length (snd orig) < 2 then Inl CorruptOrIncompatible
            else
          ebind (nc_f4 f ''image_original_pixel_aspect'') (\<lambda>aspect.
            if length (entries aspect) \<noteq> 1 then Inl CorruptOrIncompatible
            else
              Inr \<lparr>ray_end_coords = rend,
                   ray_start_coords = rstart,
                   binning = (if snd b ! 0 = 0 then None else Some (snd b ! 0)),
                   rd_transform =
                     \<lparr>transform_actions = read_transform_actions env acts,
                      x_pixels = snd orig ! 0,
                      y_pixels = snd orig ! 1,
                      pixel_aspectratio = entries aspect ! 0\<rparr>,
                   fullchip = (snd b ! 0 \<noteq> 0),
                   rd_x = Some (int_array x),
                   rd_y = Some (int_array y),
                   ResultType = rt\<rparr>))))))))))"

section \<open>A small camera and scene for the examples\<close>

text \<open>
  A camera of 4 by 2 pixels with its pupil at the origin, looking along
  \<open>(u, v, 1)\<close> from pixel \<open>(u, v)\<close>; a scene that is hit by exactly the segments
  ending at \<open>x \<ge> 20\<close>, at the point of the same \<open>y\<close> and \<open>z\<close> with \<open>x = 2\<close>;
  rays of length 10. The shuffle reverses, the fresh memory holds sevens, single
  precision loses nothing, and an undefined integer conversion gives \<open>- 2\<^sup>3\<^sup>1\<close>.
\<close>

definition demo_transform :: CoordTransformer where
  "demo_transform =
     \<lparr>transform_actions = [''flip_up_down''], x_pixels = 4, y_pixels = 2,
      pixel_aspectratio = Fin 1\<rparr>"

definition demo_fit :: FitResults where
  "demo_fit =
     \<lparr>transform = demo_transform,
      image_display_shape = (4, 2),
      get_pupilpos = (\<lambda>u v. (Fin 0, Fin 0, Fin 0)),
      get_los_direction = (\<lambda>u v. (u, v, Fin 1))\<rparr>"

definition demo_locator :: "vec3 \<Rightarrow> vec3 \<Rightarrow> vec3 option" where
  "demo_locator p q =
     (case q of (q0, q1, q2) \<Rightarrow> if fle (Fin 20) q0 then Some (Fin 2, q1, q2) else None)"

definition demo_caster :: RayCaster where
  "demo_caster =
     \<lparr>fitresults = Some demo_fit, vtkCellLocator = Some demo_locator,
      max_ray_length = Fin 10\<rparr>"

definition demo_env :: environment where
  "demo_env =
     \<lparr>original_to_display_coords = (\<lambda>t u v. (u, v)),
      display_to_original_image = (\<lambda>t a b. a),
      read_transform_actions = (\<lambda>s. [''flip_up_down'']),
      np_linspace = (\<lambda>a b n. Inl LinspaceError),
      random_shuffle = rev,
      uninitialised = (\<lambda>k. Fin 7),
      paths_raydata = ''raydata'',
      round_f4 = (\<lambda>v. v),
      i4_out_of_range = (\<lambda>v. - 2147483648)\<rparr>"

definition demo_x :: ndarray where
  "demo_x = \<lparr>shape = [2, 2], entries = [Fin 0, Fin 3, NaN, Fin 2]\<rparr>"

definition demo_y :: ndarray where
  "demo_y = \<lparr>shape = [2, 2], entries = [Fin 0, Fin 1, Fin 1, Fin 1]\<rparr>"

text \<open>
  Ray data of two stored pixels, (10,10) and (20,20), with rays of length 5 and 7;
  the same with a third, invalid pixel; and with a first ray of length zero.
\<close>

definition demo_rays :: RayData where
  "demo_rays =
     \<lparr>ray_end_coords = \<lparr>shape = [2, 3], entries = [Fin 3, Fin 4, Fin 0, Fin 7, Fin 0, Fin 0]\<rparr>,
      ray_start_coords = \<lparr>shape = [2, 3], entries = [Fin 0, Fin 0, Fin 0, Fin 0, Fin 0, Fin 0]\<rparr>,
      binning = None,
      rd_transform = demo_transform,
      fullchip = False,
      rd_x = Some \<lparr>shape = [2], entries = [Fin 10, Fin 20]\<rparr>,
      rd_y = Some \<lparr>shape = [2], entries = [Fin 10, Fin 20]\<rparr>,
      ResultType = ''PixelRayCast''\<rparr>"

definition demo_rays_nan :: RayData where
  "demo_rays_nan =
     \<lparr>ray_end_coords = \<lparr>shape = [3, 3],
         entries = [Fin 3, Fin 4, Fin 0, Fin 7, Fin 0, Fin 0, NaN, NaN, NaN]\<rparr>,
      ray_start_coords = \<lparr>shape = [3, 3],
         entries = [Fin 0, Fin 0, Fin 0, Fin 0, Fin 0, Fin 0, NaN, NaN, NaN]\<rparr>,
      binning = None,
      rd_transform = demo_transform,
      fullchip = False,
      rd_x = Some \<lparr>shape = [3], entries = [Fin 10, Fin 20, NaN]\<rparr>,
      rd_y = Some \<lparr>shape = [3], entries = [Fin 10, Fin 20, NaN]\<rparr>,
      ResultType = ''PixelRayCast''\<rparr>"

definition demo_rays_zero :: RayData where
  "demo_rays_zero =
     \<lparr>ray_end_coords = \<lparr>shape = [2, 3], entries = [Fin 1, Fin 2, Fin 3, Fin 7, Fin 0, Fin 0]\<rparr>,
      ray_start_coords = \<lparr>shape = [2, 3], entries = [Fin 1, Fin 2, Fin 3, Fin 0, Fin 0, Fin 0]\<rparr>,
      binning = None,
      rd_transform = demo_transform,
      fullchip = False,
      rd_x = Some \<lparr>shape = [2], entries = [Fin 10, Fin 20]\<rparr>,
      rd_y = Some \<lparr>shape = [2], entries = [Fin 10, Fin 20]\<rparr>,
      ResultType = ''PixelRayCast''\<rparr>"

text \<open>
  Ray data whose pixel arrays have three axes.
\<close>

definition demo_rays_3d :: RayData where
  "demo_rays_3d =
     \<lparr>ray_end_coords = \<lparr>shape = [1, 1, 1, 3], entries = [Fin 3, Fin 4, Fin 0]\<rparr>,
      ray_start_coords = \<lparr>shape = [1, 1, 1, 3], entries = [Fin 0, Fin 0, Fin 0]\<rparr>,
      binning = None,
      rd_transform = demo_transform,
      fullchip = False,
      rd_x = Some \<lparr>shape = [1, 1, 1], entries = [Fin 10]\<rparr>,
      rd_y = Some \<lparr>shape = [1, 1, 1], entries = [Fin 10]\<rparr>,
      ResultType = ''PixelRayCast''\<rparr>"

text \<open>
  Query arrays of one pixel, of two pixels, and of none.
\<close>

definition px1 :: "real \<Rightarrow> ndarray" where
  "px1 v = \<lparr>shape = [1], entries = [Fin v]\<rparr>"

definition px2 :: "fl \<Rightarrow> fl \<Rightarrow> ndarray" where
  "px2 a b = \<lparr>shape = [2], entries = [a, b]\<rparr>"

definition empty_px :: ndarray where
  "empty_px = \<lparr>shape = [0], entries = []\<rparr>"

text \<open>
  What the example cast returns for the pixel (0.5, 0), and for the pixels (1, 0)
  and (2, 0).
\<close>

definition demo_cast_half :: RayData where
  "demo_cast_half =
     \<lparr>ray_end_coords = \<lparr>shape = [1, 3], entries = [Fin 5, Fin 0, Fin 10]\<rparr>,
      ray_start_coords = \<lparr>shape = [1, 3], entries = [Fin 0, Fin 0, Fin 0]\<rparr>,
      binning = None,
      rd_transform = demo_transform,
      fullchip = False,
      rd_x = Some (px1 (1 / 2)),
      rd_y = Some (px1 0),
      ResultType = ''PixelRayCast''\<rparr>"

definition demo_cast_whole :: RayData where
  "demo_cast_whole =
     \<lparr>ray_end_coords = \<lparr>shape = [2, 3],
         entries = [Fin 10, Fin 0, Fin 10, Fin 2, Fin 0, Fin 10]\<rparr>,
      ray_start_coords = \<lparr>shape = [2, 3],
         entries = [Fin 0, Fin 0, Fin 0, Fin 0, Fin 0, Fin 0]\<rparr>,
      binning = None,
      rd_transform = demo_transform,
      fullchip = False,
      rd_x = Some (px2 (Fin 1) (Fin 2)),
      rd_y = Some (px2 (Fin 0) (Fin 0)),
      ResultType = ''PixelRayCast''\<rparr>"

section \<open>Notions used in the statements\<close>

text \<open>
  What one valid pixel's ray end is: the hit point, or the end of the maximal segment
  when the locator reports no hit (the two branches of the loop body).
\<close>

definition ray_end_of :: "(vec3 \<Rightarrow> vec3 \<Rightarrow> vec3 option) \<Rightarrow> fl \<Rightarrow> vec3 \<Rightarrow> vec3 \<Rightarrow> vec3" where
  "ray_end_of locator maxlen start dir =
     (case locator start (vadd start (smul maxlen dir)) of
        Some pos \<Rightarrow> pos
      | None \<Rightarrow> vadd start (smul maxlen dir))"

text \<open>
  The display coordinates of an input pixel, as \<^verbatim>\<open>raycast_pixels\<close> and the queries
  compute them, and finiteness of a 3-vector.
\<close>

definition display_px :: "environment \<Rightarrow> CoordTransformer \<Rightarrow> coords \<Rightarrow> fl \<Rightarrow> fl \<Rightarrow> fl \<times> fl" where
  "display_px env t cs u v =
     (if cs = Original then original_to_display_coords env t u v else (u, v))"

definition finite3 :: "vec3 \<Rightarrow> bool" where
  "finite3 a = (case a of (a0, a1, a2) \<Rightarrow> isfinite a0 \<and> isfinite a1 \<and> isfinite a2)"

text \<open>
  The pixel arrays in display coordinates, as the explicit branch of
  \<^verbatim>\<open>raycast_pixels\<close> and the queries compute them.
\<close>

definition explicit_display :: "environment \<Rightarrow> CoordTransformer \<Rightarrow> coords \<Rightarrow> ndarray \<Rightarrow> ndarray \<Rightarrow> ndarray \<times> ndarray" where
  "explicit_display env t cs x y = (if cs = Original then to_display env t x y else (x, y))"

text \<open>
  The display coordinates of the query pixel at C position \<open>c\<close>.
\<close>

definition query_px :: "environment \<Rightarrow> RayData \<Rightarrow> coords \<Rightarrow> ndarray \<Rightarrow> ndarray \<Rightarrow> nat \<Rightarrow> fl \<times> fl" where
  "query_px env rd cs x y c = display_px env (rd_transform rd) cs (entries x ! c) (entries y ! c)"



text \<open>
  The query pixels in the order of the loop (Fortran order).
\<close>

definition flat_queries :: "nat list \<Rightarrow> fl list \<Rightarrow> fl list \<Rightarrow> (fl \<times> fl) list" where
  "flat_queries Q ex ey = map (\<lambda>k. (ex ! c_of_f Q k, ey ! c_of_f Q k)) [0..<np_size Q]"

text \<open>
  An array with a function applied to every entry; the values that survive the
  conversion to a 32-bit integer; the conversion as a float again; 32-bit integers.
\<close>

definition map_entries :: "(fl \<Rightarrow> fl) \<Rightarrow> ndarray \<Rightarrow> ndarray" where
  "map_entries g a = \<lparr>shape = shape a, entries = map g (entries a)\<rparr>"

definition is_i4 :: "fl \<Rightarrow> bool" where
  "is_i4 v =
     (case v of
        Fin r \<Rightarrow> r = real_of_int \<lfloor>r\<rfloor> \<and> - 2147483648 \<le> \<lfloor>r\<rfloor> \<and> \<lfloor>r\<rfloor> \<le> 2147483647
      | _ \<Rightarrow> False)"

definition as_i4 :: "environment \<Rightarrow> fl \<Rightarrow> fl" where
  "as_i4 env v = Fin (real_of_int (to_i4 env v))"

definition in_i4 :: "int \<Rightarrow> bool" where
  "in_i4 b = (- 2147483648 \<le> b \<and> b \<le> 2147483647)"

text \<open>
  What \<^verbatim>\<open>load\<close> makes of the binning and of the coordinate transform that
  \<^verbatim>\<open>save\<close> wrote.
\<close>

definition loaded_binning :: "environment \<Rightarrow> int option \<Rightarrow> int option" where
  "loaded_binning env b =
     (case b of
        None \<Rightarrow> None
      | Some v \<Rightarrow> if int_to_i4 env v = 0 then None else Some (int_to_i4 env v))"

definition loaded_transform :: "environment \<Rightarrow> CoordTransformer \<Rightarrow> CoordTransformer" where
  "loaded_transform env t =
     \<lparr>transform_actions = read_transform_actions env (actions_string (transform_actions t)),
      x_pixels = int_to_i4 env (x_pixels t),
      y_pixels = int_to_i4 env (y_pixels t),
      pixel_aspectratio = round_f4 env (pixel_aspectratio t)\<rparr>"

section \<open>Index arithmetic of the two orders\<close>

lemma unravelC_valid:
  "p < prod_list S \<Longrightarrow> list_all2 (<) (unravelC S p) S"
proof (induction S arbitrary: p)
  case Nil
  then show ?case by simp
next
  case (Cons s ss)
  from Cons.prems have pos: "0 < prod_list ss"
    by (cases "prod_list ss = 0") auto
  from Cons.prems have "p div prod_list ss < s"
    by (simp add: less_mult_imp_div_less)
  moreover have "p mod prod_list ss < prod_list ss"
    using pos by simp
  ultimately show ?case using Cons.IH by simp
qed

lemma ravelC_unravelC:
  "p < prod_list S \<Longrightarrow> ravelC S (unravelC S p) = p"
proof (induction S arbitrary: p)
  case Nil
  then show ?case by simp
next
  case (Cons s ss)
  from Cons.prems have pos: "0 < prod_list ss"
    by (cases "prod_list ss = 0") auto
  then have "p mod prod_list ss < prod_list ss" by simp
  then show ?case using Cons.IH by simp
qed

lemma ravelC_less:
  "list_all2 (<) idx S \<Longrightarrow> ravelC S idx < prod_list S"
proof (induction idx S rule: list_all2_induct)
  case Nil
  then show ?case by simp
next
  case (Cons i js s ss)
  have "i * prod_list ss + ravelC ss js < i * prod_list ss + prod_list ss"
    using Cons.IH by simp
  also have "\<dots> = Suc i * prod_list ss" by simp
  also have "\<dots> \<le> s * prod_list ss"
    using Cons.hyps(1) by (intro mult_le_mono1) simp
  finally show ?case by simp
qed

lemma unravelC_ravelC:
  "list_all2 (<) idx S \<Longrightarrow> unravelC S (ravelC S idx) = idx"
proof (induction idx S rule: list_all2_induct)
  case Nil
  then show ?case by simp
next
  case (Cons i js s ss)
  have r: "ravelC ss js < prod_list ss"
    using Cons.hyps(2) by (rule ravelC_less)
  then show ?case using Cons.IH by simp
qed

lemma unravelF_valid:
  "p < prod_list S \<Longrightarrow> list_all2 (<) (unravelF S p) S"
proof (induction S arbitrary: p)
  case Nil
  then show ?case by simp
next
  case (Cons s ss)
  from Cons.prems have pos: "0 < s"
    by (cases "s = 0") auto
  from Cons.prems have "p div s < prod_list ss"
    by (simp add: less_mult_imp_div_less mult.commute)
  then show ?case using Cons.IH pos by simp
qed

lemma ravelF_unravelF:
  "p < prod_list S \<Longrightarrow> ravelF S (unravelF S p) = p"
proof (induction S arbitrary: p)
  case Nil
  then show ?case by simp
next
  case (Cons s ss)
  from Cons.prems have "p div s < prod_list ss"
    by (simp add: less_mult_imp_div_less mult.commute)
  then show ?case using Cons.IH by simp
qed

lemma ravelF_less:
  "list_all2 (<) idx S \<Longrightarrow> ravelF S idx < prod_list S"
proof (induction idx S rule: list_all2_induct)
  case Nil
  then show ?case by simp
next
  case (Cons i js s ss)
  have "i + s * ravelF ss js < s + s * ravelF ss js"
    using Cons.hyps(1) by simp
  also have "\<dots> = s * Suc (ravelF ss js)" by simp
  also have "\<dots> \<le> s * prod_list ss"
    using Cons.IH by (intro mult_le_mono2) simp
  finally show ?case by simp
qed

lemma unravelF_ravelF:
  "list_all2 (<) idx S \<Longrightarrow> unravelF S (ravelF S idx) = idx"
proof (induction idx S rule: list_all2_induct)
  case Nil
  then show ?case by simp
next
  case (Cons i js s ss)
  then show ?case by simp
qed

lemma f_of_c_less: "c < np_size S \<Longrightarrow> f_of_c S c < np_size S"
  unfolding f_of_c_def np_size_def by (intro ravelF_less unravelC_valid)

lemma c_of_f_less: "k < np_size S \<Longrightarrow> c_of_f S k < np_size S"
  unfolding c_of_f_def np_size_def by (intro ravelC_less unravelF_valid)

lemma c_of_f_of_c: "c < np_size S \<Longrightarrow> c_of_f S (f_of_c S c) = c"
  unfolding c_of_f_def f_of_c_def np_size_def
  by (simp add: unravelF_ravelF unravelC_valid ravelC_unravelC)

lemma f_of_c_of_f: "k < np_size S \<Longrightarrow> f_of_c S (c_of_f S k) = k"
  unfolding c_of_f_def f_of_c_def np_size_def
  by (simp add: unravelC_ravelC unravelF_valid ravelF_unravelF)

lemma unravelC_snoc:
  "c < prod_list S \<Longrightarrow> k < m \<Longrightarrow> unravelC (S @ [m]) (c * m + k) = unravelC S c @ [k]"
proof (induction S arbitrary: c)
  case Nil
  then show ?case by simp
next
  case (Cons s ss)
  from Cons.prems have pos: "0 < prod_list ss"
    by (cases "prod_list ss = 0") auto
  have d: "(c * m + k) div (prod_list ss * m) = c div prod_list ss"
  proof -
    have "(c * m + k) div (m * prod_list ss) = ((c * m + k) div m) div prod_list ss"
      by (rule div_mult2_eq)
    also have "(c * m + k) div m = c" using Cons.prems(2) by simp
    finally show ?thesis by (simp add: mult.commute)
  qed
  have r: "(c * m + k) mod (prod_list ss * m) = (c mod prod_list ss) * m + k"
  proof -
    have "(c * m + k) mod (m * prod_list ss)
          = m * ((c * m + k) div m mod prod_list ss) + (c * m + k) mod m"
      by (rule mod_mult2_eq)
    also have "(c * m + k) div m = c" using Cons.prems(2) by simp
    also have "(c * m + k) mod m = k" using Cons.prems(2) by simp
    finally show ?thesis by (simp add: mult.commute)
  qed
  have "c mod prod_list ss < prod_list ss" using pos by simp
  then show ?case using Cons.IH[of "c mod prod_list ss"] Cons.prems(2) d r by simp
qed

lemma ravelF_snoc:
  "length idx = length S \<Longrightarrow> ravelF (S @ [m]) (idx @ [k]) = ravelF S idx + prod_list S * k"
  by (induction idx S rule: list_induct2) (simp_all add: algebra_simps)

lemma f_of_c_snoc:
  assumes "c < np_size S" "k < m"
  shows "f_of_c (S @ [m]) (c * m + k) = f_of_c S c + np_size S * k"
proof -
  have "length (unravelC S c) = length S"
    using assms(1) unravelC_valid[of c S] by (simp add: np_size_def list_all2_lengthD)
  then show ?thesis
    using assms by (simp add: f_of_c_def np_size_def unravelC_snoc ravelF_snoc)
qed

lemma c_of_f_snoc:
  assumes "f < np_size S" "k < m"
  shows "c_of_f (S @ [m]) (f + np_size S * k) = c_of_f S f * m + k"
proof -
  let ?c = "c_of_f S f"
  have c: "?c < np_size S" using assms(1) by (rule c_of_f_less)
  have "f_of_c (S @ [m]) (?c * m + k) = f + np_size S * k"
    using f_of_c_snoc[OF c assms(2)] assms(1) by (simp add: f_of_c_of_f)
  moreover have "?c * m + k < np_size (S @ [m])"
  proof -
    have "?c * m + k < ?c * m + m" using assms(2) by simp
    also have "\<dots> = Suc ?c * m" by simp
    also have "\<dots> \<le> np_size S * m" using c by (intro mult_le_mono1) simp
    finally show ?thesis by (simp add: np_size_def)
  qed
  ultimately show ?thesis using c_of_f_of_c[of "?c * m + k" "S @ [m]"] by simp
qed

lemma c_of_f_1d: "c_of_f [n] k = k mod n"
  by (simp add: c_of_f_def)

lemma f_of_c_1d: "f_of_c [n] k = k"
  by (simp add: f_of_c_def)

section \<open>Rows and the casting loop\<close>

lemma length_vec_list [simp]: "length (vec_list v) = 3"
  by (cases v) (simp add: vec_list_def)

lemma length_concat_vec_list [simp]: "length (concat (map vec_list rs)) = 3 * length rs"
  by (induction rs) simp_all

lemma concat_vec_list_nth:
  "i < length rs \<Longrightarrow> k < 3 \<Longrightarrow> concat (map vec_list rs) ! (3 * i + k) = vec_list (rs ! i) ! k"
proof (induction rs arbitrary: i)
  case Nil
  then show ?case by simp
next
  case (Cons r rs)
  show ?case
  proof (cases i)
    case 0
    then show ?thesis using Cons.prems by (simp add: nth_append)
  next
    case (Suc j)
    then have "3 * i + k = 3 + (3 * j + k)" by simp
    then show ?thesis using Cons Suc by (simp add: nth_append)
  qed
qed

lemma row_rows_array: "i < length rs \<Longrightarrow> row (rows_array rs) i = rs ! i"
  using concat_vec_list_nth[of i rs 0] concat_vec_list_nth[of i rs 1] concat_vec_list_nth[of i rs 2]
  by (cases "rs ! i") (simp add: row_def rows_array_def vec_list_def)

lemma length_entries_rows_array [simp]: "length (entries (rows_array rs)) = 3 * length rs"
  by (simp add: rows_array_def)

lemma shape_rows_array [simp]: "shape (rows_array rs) = [length rs, 3]"
  by (simp add: rows_array_def)

lemma length_entries_set_row [simp]: "length (entries (set_row a i v)) = length (entries a)"
  by (cases v) (simp add: set_row_def)

lemma shape_set_row [simp]: "shape (set_row a i v) = shape a"
  by (cases v) (simp add: set_row_def)

lemma row_set_row_same:
  "3 * i + 2 < length (entries a) \<Longrightarrow> row (set_row a i v) i = v"
  by (cases v) (simp add: set_row_def row_def)

lemma row_set_row_other:
  "i \<noteq> j \<Longrightarrow> row (set_row a i v) j = row a j"
  by (cases v) (simp add: set_row_def row_def)

lemma array_eq_rows:
  assumes "shape a = shape b" "length (entries a) = 3 * n" "length (entries b) = 3 * n"
    and rows: "\<And>i. i < n \<Longrightarrow> row a i = row b i"
  shows "a = b"
proof -
  have "entries a = entries b"
  proof (rule nth_equalityI)
    show "length (entries a) = length (entries b)" using assms by simp
  next
    fix j assume j: "j < length (entries a)"
    define i where "i = j div 3"
    have i: "i < n" using j assms(2) by (simp add: i_def less_mult_imp_div_less mult.commute)
    have "j = 3 * i \<or> j = 3 * i + 1 \<or> j = 3 * i + 2"
      unfolding i_def by presburger
    with rows[OF i] show "entries a ! j = entries b ! j"
      by (auto simp: row_def)
  qed
  with assms(1) show ?thesis by simp
qed

lemma cast_step_lengths [simp]:
  "length (entries (st_ray_end_coords (cast_step loc L LOS valid ind s))) = length (entries (st_ray_end_coords s))"
  "length (entries (st_ray_start_coords (cast_step loc L LOS valid ind s))) = length (entries (st_ray_start_coords s))"
  "shape (st_ray_end_coords (cast_step loc L LOS valid ind s)) = shape (st_ray_end_coords s)"
  "shape (st_ray_start_coords (cast_step loc L LOS valid ind s)) = shape (st_ray_start_coords s)"
  by (simp_all add: cast_step_def Let_def)

lemma cast_step_start_row:
  assumes "length (entries (st_ray_start_coords s)) = 3 * n" "ind < n"
  shows "row (st_ray_start_coords (cast_step loc L LOS valid ind s)) i =
         (if i = ind \<and> \<not> valid ! ind then nan3 else row (st_ray_start_coords s) i)"
  using assms by (auto simp: cast_step_def Let_def row_set_row_same row_set_row_other)

lemma cast_step_end_row:
  assumes "length (entries (st_ray_end_coords s)) = 3 * n" "ind < n"
  shows "row (st_ray_end_coords (cast_step loc L LOS valid ind s)) i =
         (if i = ind then
            (if valid ! ind then ray_end_of loc L (row (st_ray_start_coords s) ind) (row LOS ind) else nan3)
          else row (st_ray_end_coords s) i)"
  using assms
  by (auto simp: cast_step_def Let_def ray_end_of_def row_set_row_same row_set_row_other
           split: option.splits)

lemma cast_loop_rows:
  assumes "length (entries (st_ray_end_coords s)) = 3 * n"
    and "length (entries (st_ray_start_coords s)) = 3 * n"
    and "set inds \<subseteq> {..<n}"
    and "\<And>i. i < n \<Longrightarrow> valid ! i \<Longrightarrow> row (st_ray_start_coords s) i = start0 i"
  shows "length (entries (st_ray_end_coords (cast_loop loc L LOS valid inds s))) = 3 * n
       \<and> length (entries (st_ray_start_coords (cast_loop loc L LOS valid inds s))) = 3 * n
       \<and> shape (st_ray_end_coords (cast_loop loc L LOS valid inds s)) = shape (st_ray_end_coords s)
       \<and> shape (st_ray_start_coords (cast_loop loc L LOS valid inds s)) = shape (st_ray_start_coords s)
       \<and> (\<forall>i<n. row (st_ray_end_coords (cast_loop loc L LOS valid inds s)) i =
            (if i \<in> set inds then
               (if valid ! i then ray_end_of loc L (start0 i) (row LOS i) else nan3)
             else row (st_ray_end_coords s) i))
       \<and> (\<forall>i<n. row (st_ray_start_coords (cast_loop loc L LOS valid inds s)) i =
            (if i \<in> set inds \<and> \<not> valid ! i then nan3 else row (st_ray_start_coords s) i))"
  using assms
proof (induction inds arbitrary: s)
  case Nil
  then show ?case by (simp add: cast_loop_def)
next
  case (Cons ind inds)
  let ?s1 = "cast_step loc L LOS valid ind s"
  have ind: "ind < n" using Cons.prems(3) by simp
  have inv1: "row (st_ray_start_coords ?s1) i = start0 i" if "i < n" "valid ! i" for i
    using Cons.prems(4)[OF that] that(2)
    by (auto simp: cast_step_start_row[OF Cons.prems(2) ind])
  have IH: "length (entries (st_ray_end_coords (cast_loop loc L LOS valid inds ?s1))) = 3 * n
       \<and> length (entries (st_ray_start_coords (cast_loop loc L LOS valid inds ?s1))) = 3 * n
       \<and> shape (st_ray_end_coords (cast_loop loc L LOS valid inds ?s1)) = shape (st_ray_end_coords ?s1)
       \<and> shape (st_ray_start_coords (cast_loop loc L LOS valid inds ?s1)) = shape (st_ray_start_coords ?s1)
       \<and> (\<forall>i<n. row (st_ray_end_coords (cast_loop loc L LOS valid inds ?s1)) i =
            (if i \<in> set inds then
               (if valid ! i then ray_end_of loc L (start0 i) (row LOS i) else nan3)
             else row (st_ray_end_coords ?s1) i))
       \<and> (\<forall>i<n. row (st_ray_start_coords (cast_loop loc L LOS valid inds ?s1)) i =
            (if i \<in> set inds \<and> \<not> valid ! i then nan3 else row (st_ray_start_coords ?s1) i))"
    using Cons.prems(1,2,3) inv1 by (intro Cons.IH) simp_all
  have unfold: "cast_loop loc L LOS valid (ind # inds) s = cast_loop loc L LOS valid inds ?s1"
    by (simp add: cast_loop_def)
  show ?case
    unfolding unfold
    using IH Cons.prems(4)[OF ind]
    by (auto simp: cast_step_start_row[OF Cons.prems(2) ind] cast_step_end_row[OF Cons.prems(1) ind])
qed

lemma cast_loop_casts:
  "set (casts (cast_loop loc L LOS valid inds s)) = set (casts s) \<union> {i \<in> set inds. valid ! i}"
proof (induction inds arbitrary: s)
  case Nil
  then show ?case by (simp add: cast_loop_def)
next
  case (Cons ind inds)
  have "cast_loop loc L LOS valid (ind # inds) s
        = cast_loop loc L LOS valid inds (cast_step loc L LOS valid ind s)"
    by (simp add: cast_loop_def)
  then show ?case using Cons.IH[of "cast_step loc L LOS valid ind s"]
    by (auto simp: cast_step_def Let_def)
qed

lemma np_size_simps [simp]: "np_size [n] = n" "np_size (S @ [m]) = np_size S * m" "np_size [n, m] = n * m"
  by (simp_all add: np_size_def)

lemma is_shuffle_set: "is_shuffle sh \<Longrightarrow> set (sh [0..<n]) = {..<n}"
proof -
  assume "is_shuffle sh"
  then have "mset (sh [0..<n]) = mset [0..<n]" by (simp add: is_shuffle_def)
  then have "set (sh [0..<n]) = set [0..<n]" by (rule mset_eq_setD)
  then show ?thesis by (simp add: lessThan_atLeast0)
qed

lemma cast_loop_arrays:
  assumes e: "length (entries (st_ray_end_coords s0)) = 3 * n"
    and st: "length (entries (st_ray_start_coords s0)) = 3 * n"
    and inds: "set inds = {..<n}"
  shows "st_ray_end_coords (cast_loop loc L LOS valid inds s0) =
           \<lparr>shape = shape (st_ray_end_coords s0),
            entries = entries (rows_array (map (\<lambda>i. if valid ! i
                        then ray_end_of loc L (row (st_ray_start_coords s0) i) (row LOS i)
                        else nan3) [0..<n]))\<rparr>"
    and "st_ray_start_coords (cast_loop loc L LOS valid inds s0) =
           \<lparr>shape = shape (st_ray_start_coords s0),
            entries = entries (rows_array (map (\<lambda>i. if valid ! i
                        then row (st_ray_start_coords s0) i else nan3) [0..<n]))\<rparr>"
proof -
  let ?s = "cast_loop loc L LOS valid inds s0"
  have sub: "set inds \<subseteq> {..<n}" using inds by simp
  note R = cast_loop_rows[OF e st sub, of valid "\<lambda>i. row (st_ray_start_coords s0) i" loc L LOS, simplified]
  let ?E = "map (\<lambda>i. if valid ! i
                        then ray_end_of loc L (row (st_ray_start_coords s0) i) (row LOS i)
                        else nan3) [0..<n]"
  let ?S = "map (\<lambda>i. if valid ! i then row (st_ray_start_coords s0) i else nan3) [0..<n]"
  have rowE: "row \<lparr>shape = sh, entries = entries (rows_array ?E)\<rparr> i = ?E ! i" if "i < n" for i sh
    using row_rows_array[of i ?E] that by (simp add: row_def)
  have rowS: "row \<lparr>shape = sh, entries = entries (rows_array ?S)\<rparr> i = ?S ! i" if "i < n" for i sh
    using row_rows_array[of i ?S] that by (simp add: row_def)
  show "st_ray_end_coords ?s = \<lparr>shape = shape (st_ray_end_coords s0), entries = entries (rows_array ?E)\<rparr>"
  proof (rule array_eq_rows[where n = n])
    show "shape (st_ray_end_coords ?s) = shape \<lparr>shape = shape (st_ray_end_coords s0), entries = entries (rows_array ?E)\<rparr>"
      using R by simp
    show "length (entries (st_ray_end_coords ?s)) = 3 * n" using R by simp
    show "length (entries \<lparr>shape = shape (st_ray_end_coords s0), entries = entries (rows_array ?E)\<rparr>) = 3 * n"
      by simp
    fix i assume i: "i < n"
    then have "i \<in> set inds" using inds by simp
    then show "row (st_ray_end_coords ?s) i = row \<lparr>shape = shape (st_ray_end_coords s0), entries = entries (rows_array ?E)\<rparr> i"
      using R i by (simp add: rowE)
  qed
  show "st_ray_start_coords ?s = \<lparr>shape = shape (st_ray_start_coords s0), entries = entries (rows_array ?S)\<rparr>"
  proof (rule array_eq_rows[where n = n])
    show "shape (st_ray_start_coords ?s) = shape \<lparr>shape = shape (st_ray_start_coords s0), entries = entries (rows_array ?S)\<rparr>"
      using R by simp
    show "length (entries (st_ray_start_coords ?s)) = 3 * n" using R by simp
    show "length (entries \<lparr>shape = shape (st_ray_start_coords s0), entries = entries (rows_array ?S)\<rparr>) = 3 * n"
      by simp
    fix i assume i: "i < n"
    then have "i \<in> set inds" using inds by simp
    then show "row (st_ray_start_coords ?s) i = row \<lparr>shape = shape (st_ray_start_coords s0), entries = entries (rows_array ?S)\<rparr> i"
      using R i by (simp add: rowS)
  qed
qed

lemma reshape_F_list_flat:
  "reshape_F_list S [np_size S] xs = Inr (map (\<lambda>k. xs ! c_of_f S k) [0..<np_size S])"
  by (simp add: reshape_F_list_def f_of_c_1d)

lemma reshape_F_unflat:
  assumes "length es = np_size S"
  shows "reshape_F \<lparr>shape = [np_size S], entries = es\<rparr> S =
           Inr \<lparr>shape = S, entries = map (\<lambda>c. es ! f_of_c S c) [0..<np_size S]\<rparr>"
proof -
  have "map (\<lambda>c. es ! c_of_f [np_size S] (f_of_c S c)) [0..<np_size S]
        = map (\<lambda>c. es ! f_of_c S c) [0..<np_size S]"
    by (rule map_cong) (simp_all add: c_of_f_1d f_of_c_less)
  then show ?thesis by (simp add: reshape_F_def reshape_F_list_def)
qed

lemma reshape_F_rows:
  assumes "shape a = [np_size S, 3]"
  shows "\<exists>b. reshape_F a (S @ [3]) = Inr b \<and> shape b = S @ [3]
           \<and> length (entries b) = np_size S * 3
           \<and> (\<forall>c<np_size S. row b c = row a (f_of_c S c))"
proof -
  let ?n = "np_size S"
  let ?es = "map (\<lambda>j. entries a ! c_of_f [?n, 3] (f_of_c (S @ [3]) j)) [0..<?n * 3]"
  have r: "reshape_F a (S @ [3]) = Inr \<lparr>shape = S @ [3], entries = ?es\<rparr>"
    using assms by (simp add: reshape_F_def reshape_F_list_def)
  have idx: "c_of_f [?n, 3] (f_of_c (S @ [3]) (3 * c + k)) = 3 * f_of_c S c + k"
    if "c < ?n" "k < 3" for c k
  proof -
    have f: "f_of_c S c < ?n" using that(1) by (rule f_of_c_less)
    have "f_of_c (S @ [3]) (c * 3 + k) = f_of_c S c + ?n * k"
      using that by (rule f_of_c_snoc)
    moreover have "c_of_f ([?n] @ [3]) (f_of_c S c + np_size [?n] * k) = c_of_f [?n] (f_of_c S c) * 3 + k"
      using f that(2) by (intro c_of_f_snoc) simp_all
    ultimately show ?thesis using f by (simp add: c_of_f_1d mult.commute)
  qed
  have "row \<lparr>shape = S @ [3], entries = ?es\<rparr> c = row a (f_of_c S c)" if "c < ?n" for c
  proof -
    have "3 * c < ?n * 3" "3 * c + 1 < ?n * 3" "3 * c + 2 < ?n * 3" using that by simp_all
    then show ?thesis
      using idx[OF that, of 0] idx[OF that, of 1] idx[OF that, of 2]
      by (simp add: row_def del: upt_Suc)
  qed
  with r show ?thesis by simp
qed

section \<open>What raycast_pixels returns\<close>

lemma row_entries_rows_array:
  "i < length rs \<Longrightarrow> row \<lparr>shape = sh, entries = entries (rows_array rs)\<rparr> i = rs ! i"
  using row_rows_array[of i rs] by (simp add: row_def)

lemma raycast_run_core:
  assumes cfg: "fitresults rc = Some fr" "vtkCellLocator rc = Some loc"
    and pb: "pixel_batch env fr xy bin cs = Inr (x, y, vm, full)"
    and sh: "is_shuffle (random_shuffle env)"
    and lx: "length (entries x) = np_size (shape x)"
    and ly: "length (entries y) = np_size (shape x)"
    and lv: "length vm = np_size (shape x)"
  shows "\<exists>r s rx ry. raycast_run env rc xy bin cs = Inr (r, s)
     \<and> shape (ray_end_coords r) = shape x @ [3]
     \<and> length (entries (ray_end_coords r)) = np_size (shape x) * 3
     \<and> shape (ray_start_coords r) = shape x @ [3]
     \<and> length (entries (ray_start_coords r)) = np_size (shape x) * 3
     \<and> rd_x r = Some rx \<and> rd_y r = Some ry
     \<and> shape rx = shape x \<and> shape ry = shape x
     \<and> length (entries rx) = np_size (shape x) \<and> length (entries ry) = np_size (shape x)
     \<and> (\<forall>c<np_size (shape x).
           entries rx ! c = (if vm ! c then entries x ! c else NaN)
         \<and> entries ry ! c = (if vm ! c then entries y ! c else NaN)
         \<and> row (ray_start_coords r) c =
             (if vm ! c then get_pupilpos fr (entries x ! c) (entries y ! c) else nan3)
         \<and> row (ray_end_coords r) c =
             (if vm ! c then ray_end_of loc (max_ray_length rc)
                               (get_pupilpos fr (entries x ! c) (entries y ! c))
                               (get_los_direction fr (entries x ! c) (entries y ! c))
              else nan3)
         \<and> (f_of_c (shape x) c \<in> set (casts s)) = vm ! c)
     \<and> binning r = (if full then Some bin else None)
     \<and> fullchip r = full
     \<and> rd_transform r = transform fr
     \<and> ResultType r = ''PixelRayCast''"
proof -
  define S where "S = shape x"
  define n where "n = np_size S"
  define x0 where "x0 = map (\<lambda>(v, ok). if ok then v else Fin 0) (zip (entries x) vm)"
  define y0 where "y0 = map (\<lambda>(v, ok). if ok then v else Fin 0) (zip (entries y) vm)"
  define xF where "xF = map (\<lambda>k. x0 ! c_of_f S k) [0..<n]"
  define yF where "yF = map (\<lambda>k. y0 ! c_of_f S k) [0..<n]"
  define maskF where "maskF = map (\<lambda>k. vm ! c_of_f S k) [0..<n]"
  define LOS where "LOS = rows_array (map (\<lambda>(u, v). get_los_direction fr u v) (zip xF yF))"
  define starts where "starts = map (\<lambda>(u, v). get_pupilpos fr u v) (zip xF yF)"
  define s0 where "s0 = \<lparr>st_ray_end_coords =
                   \<lparr>shape = [n, 3], entries = map (uninitialised env) [0..<n * 3]\<rparr>,
                 st_ray_start_coords = rows_array starts,
                 n_done = 0,
                 casts = []\<rparr>"
  define s where "s = cast_loop loc (max_ray_length rc) LOS maskF (random_shuffle env [0..<n]) s0"
  define xN where "xN = map (\<lambda>(v, ok). if ok then v else NaN) (zip xF maskF)"
  define yN where "yN = map (\<lambda>(v, ok). if ok then v else NaN) (zip yF maskF)"
  have len: "length xF = n" "length yF = n" "length maskF = n" "length starts = n"
    "length xN = n" "length yN = n" "length x0 = n" "length y0 = n"
    using lx ly lv by (simp_all add: xF_def yF_def maskF_def starts_def xN_def yN_def x0_def y0_def n_def S_def)
  have run: "raycast_run env rc xy bin cs =
     ebind (reshape_F (st_ray_end_coords s) (S @ [3])) (\<lambda>rend.
     ebind (reshape_F (st_ray_start_coords s) (S @ [3])) (\<lambda>rstart.
     ebind (reshape_F \<lparr>shape = [n], entries = xN\<rparr> S) (\<lambda>rx.
     ebind (reshape_F \<lparr>shape = [n], entries = yN\<rparr> S) (\<lambda>ry.
       Inr (\<lparr>ray_end_coords = rend,
             ray_start_coords = rstart,
             binning = (if full then Some bin else None),
             rd_transform = transform fr,
             fullchip = full,
             rd_x = Some rx,
             rd_y = Some ry,
             ResultType = ''PixelRayCast''\<rparr>, s)))))"
    unfolding raycast_run_def S_def n_def x0_def y0_def xF_def yF_def maskF_def LOS_def
      starts_def s0_def s_def xN_def yN_def
    by (simp add: cfg pb ebind_def Let_def reshape_F_list_flat)
  have inds: "set (random_shuffle env [0..<n]) = {..<n}"
    using sh by (rule is_shuffle_set)
  have l0: "length (entries (st_ray_end_coords s0)) = 3 * n"
    "length (entries (st_ray_start_coords s0)) = 3 * n"
    by (simp_all add: s0_def len)
  define Erows where "Erows = map (\<lambda>i. if maskF ! i
      then ray_end_of loc (max_ray_length rc) (row (st_ray_start_coords s0) i) (row LOS i)
      else nan3) [0..<n]"
  define Srows where "Srows = map (\<lambda>i. if maskF ! i then row (st_ray_start_coords s0) i else nan3) [0..<n]"
  have E: "st_ray_end_coords s = \<lparr>shape = [n, 3], entries = entries (rows_array Erows)\<rparr>"
    unfolding s_def Erows_def using cast_loop_arrays(1)[OF l0 inds] by (simp add: s0_def)
  have St: "st_ray_start_coords s = \<lparr>shape = [n, 3], entries = entries (rows_array Srows)\<rparr>"
    unfolding s_def Srows_def using cast_loop_arrays(2)[OF l0 inds] by (simp add: s0_def len)
  obtain rend where rend: "reshape_F (st_ray_end_coords s) (S @ [3]) = Inr rend"
    "shape rend = S @ [3]" "length (entries rend) = n * 3"
    "\<And>c. c < n \<Longrightarrow> row rend c = row (st_ray_end_coords s) (f_of_c S c)"
    using reshape_F_rows[of "st_ray_end_coords s" S] E by (auto simp: n_def)
  obtain rstart where rstart: "reshape_F (st_ray_start_coords s) (S @ [3]) = Inr rstart"
    "shape rstart = S @ [3]" "length (entries rstart) = n * 3"
    "\<And>c. c < n \<Longrightarrow> row rstart c = row (st_ray_start_coords s) (f_of_c S c)"
    using reshape_F_rows[of "st_ray_start_coords s" S] St by (auto simp: n_def)
  define rx where "rx = \<lparr>shape = S, entries = map (\<lambda>c. xN ! f_of_c S c) [0..<n]\<rparr>"
  define ry where "ry = \<lparr>shape = S, entries = map (\<lambda>c. yN ! f_of_c S c) [0..<n]\<rparr>"
  have rx: "reshape_F \<lparr>shape = [n], entries = xN\<rparr> S = Inr rx"
    using reshape_F_unflat[of xN S] len by (simp add: n_def rx_def)
  have ry: "reshape_F \<lparr>shape = [n], entries = yN\<rparr> S = Inr ry"
    using reshape_F_unflat[of yN S] len by (simp add: n_def ry_def)
  define r where "r = \<lparr>ray_end_coords = rend,
             ray_start_coords = rstart,
             binning = (if full then Some bin else None),
             rd_transform = transform fr,
             fullchip = full,
             rd_x = Some rx,
             rd_y = Some ry,
             ResultType = ''PixelRayCast''\<rparr>"
  have res: "raycast_run env rc xy bin cs = Inr (r, s)"
    by (simp add: run rend rstart rx ry ebind_def r_def)
  have px: "entries rx ! c = (if vm ! c then entries x ! c else NaN)
         \<and> entries ry ! c = (if vm ! c then entries y ! c else NaN)
         \<and> row rstart c =
             (if vm ! c then get_pupilpos fr (entries x ! c) (entries y ! c) else nan3)
         \<and> row rend c =
             (if vm ! c then ray_end_of loc (max_ray_length rc)
                               (get_pupilpos fr (entries x ! c) (entries y ! c))
                               (get_los_direction fr (entries x ! c) (entries y ! c))
              else nan3)
         \<and> (f_of_c S c \<in> set (casts s)) = vm ! c" if c: "c < n" for c
  proof -
    define f where "f = f_of_c S c"
    have f: "f < n" using c by (simp add: f_def n_def f_of_c_less)
    have cf: "c_of_f S f = c" using c by (simp add: f_def n_def c_of_f_of_c)
    have c': "c < length (entries x)" "c < length (entries y)" "c < length vm"
      using c lx ly lv by (simp_all add: n_def S_def)
    have m: "maskF ! f = vm ! c" using f cf by (simp add: maskF_def)
    have xf: "xF ! f = (if vm ! c then entries x ! c else Fin 0)"
      using f cf c' by (simp add: xF_def x0_def)
    have yf: "yF ! f = (if vm ! c then entries y ! c else Fin 0)"
      using f cf c' by (simp add: yF_def y0_def)
    have xn: "xN ! f = (if vm ! c then entries x ! c else NaN)"
      using f len m xf by (simp add: xN_def)
    have yn: "yN ! f = (if vm ! c then entries y ! c else NaN)"
      using f len m yf by (simp add: yN_def)
    have st0: "row (st_ray_start_coords s0) f = get_pupilpos fr (xF ! f) (yF ! f)"
      using f len by (simp add: s0_def row_rows_array starts_def)
    have los: "row LOS f = get_los_direction fr (xF ! f) (yF ! f)"
      using f len by (simp add: LOS_def row_rows_array)
    have e: "row rend c = Erows ! f"
      using rend(4)[OF c] f by (simp add: E f_def[symmetric] row_entries_rows_array Erows_def)
    have st: "row rstart c = Srows ! f"
      using rstart(4)[OF c] f by (simp add: St f_def[symmetric] row_entries_rows_array Srows_def)
    have cast: "set (casts s) = {i \<in> {..<n}. maskF ! i}"
      unfolding s_def cast_loop_casts inds by (simp add: s0_def)
    show ?thesis
      using c f e st
      by (simp add: rx_def ry_def f_def[symmetric] xn yn Erows_def Srows_def m st0 los xf yf cast)
  qed
  show ?thesis
    apply (rule exI[of _ r], rule exI[of _ s], rule exI[of _ rx], rule exI[of _ ry])
    using res rend(2,3) rstart(2,3) px
    by (simp add: r_def rx_def ry_def S_def[symmetric] n_def[symmetric])
qed

lemma chip_axis_env_irrelevant:
  "chip_axis (env\<lparr>random_shuffle := sh, uninitialised := g\<rparr>) = chip_axis env"
  by (intro ext) (simp add: chip_axis_def)

lemma to_display_env_irrelevant:
  "to_display (env\<lparr>random_shuffle := sh, uninitialised := g\<rparr>) = to_display env"
  by (intro ext) (simp add: to_display_def)

lemma pixel_batch_env_irrelevant:
  "pixel_batch (env\<lparr>random_shuffle := sh, uninitialised := g\<rparr>) fr xy bin cs = pixel_batch env fr xy bin cs"
  unfolding pixel_batch_def chip_axis_env_irrelevant to_display_env_irrelevant ..

lemma to_display_shape [simp]:
  "shape (fst (to_display env t x y)) = shape x" "shape (snd (to_display env t x y)) = shape y"
  by (simp_all add: to_display_def Let_def)

lemma to_display_length [simp]:
  "length (entries (fst (to_display env t x y))) = min (length (entries x)) (length (entries y))"
  "length (entries (snd (to_display env t x y))) = min (length (entries x)) (length (entries y))"
  by (simp_all add: to_display_def Let_def)

lemma to_display_nth:
  assumes "c < length (entries x)" "c < length (entries y)"
  shows "entries (fst (to_display env t x y)) ! c
           = fst (original_to_display_coords env t (entries x ! c) (entries y ! c))"
    and "entries (snd (to_display env t x y)) ! c
           = snd (original_to_display_coords env t (entries x ! c) (entries y ! c))"
  using assms by (simp_all add: to_display_def Let_def)

lemma pixel_batch_explicit:
  assumes "shape x = shape y"
  shows "pixel_batch env fr (Some (x, y)) bin cs =
     Inr (fst (explicit_display env (transform fr) cs x y),
          snd (explicit_display env (transform fr) cs x y),
          map (\<lambda>(u, v). \<not> isnan u \<and> \<not> isnan v) (zip (entries x) (entries y)),
          False)"
  using assms by (simp add: pixel_batch_def explicit_display_def Let_def split: prod.splits)

lemma explicit_display_facts:
  assumes "shape x = shape y" "wf_array x" "wf_array y"
  shows "shape (fst (explicit_display env t cs x y)) = shape x"
    and "length (entries (fst (explicit_display env t cs x y))) = np_size (shape x)"
    and "length (entries (snd (explicit_display env t cs x y))) = np_size (shape x)"
    and "c < np_size (shape x) \<Longrightarrow>
          entries (fst (explicit_display env t cs x y)) ! c
            = fst (display_px env t cs (entries x ! c) (entries y ! c))"
    and "c < np_size (shape x) \<Longrightarrow>
          entries (snd (explicit_display env t cs x y)) ! c
            = snd (display_px env t cs (entries x ! c) (entries y ! c))"
  using assms
  by (simp_all add: explicit_display_def display_px_def wf_array_def to_display_nth)

lemma raycast_run_explicit:
  assumes cfg: "fitresults rc = Some fr" "vtkCellLocator rc = Some loc"
    and shp: "shape x = S" "shape y = S"
    and wf: "wf_array x" "wf_array y"
    and sh: "is_shuffle (random_shuffle env)"
  shows "\<exists>r s rx ry. raycast_run env rc (Some (x, y)) bin cs = Inr (r, s)
     \<and> shape (ray_end_coords r) = S @ [3]
     \<and> length (entries (ray_end_coords r)) = np_size S * 3
     \<and> shape (ray_start_coords r) = S @ [3]
     \<and> length (entries (ray_start_coords r)) = np_size S * 3
     \<and> rd_x r = Some rx \<and> rd_y r = Some ry
     \<and> shape rx = S \<and> shape ry = S
     \<and> length (entries rx) = np_size S \<and> length (entries ry) = np_size S
     \<and> (\<forall>c<np_size S.
           entries rx ! c = (if isnan (entries x ! c) \<or> isnan (entries y ! c) then NaN
                             else fst (display_px env (transform fr) cs (entries x ! c) (entries y ! c)))
         \<and> entries ry ! c = (if isnan (entries x ! c) \<or> isnan (entries y ! c) then NaN
                             else snd (display_px env (transform fr) cs (entries x ! c) (entries y ! c)))
         \<and> row (ray_start_coords r) c =
             (if isnan (entries x ! c) \<or> isnan (entries y ! c) then nan3
              else get_pupilpos fr
                     (fst (display_px env (transform fr) cs (entries x ! c) (entries y ! c)))
                     (snd (display_px env (transform fr) cs (entries x ! c) (entries y ! c))))
         \<and> row (ray_end_coords r) c =
             (if isnan (entries x ! c) \<or> isnan (entries y ! c) then nan3
              else ray_end_of loc (max_ray_length rc)
                     (get_pupilpos fr
                        (fst (display_px env (transform fr) cs (entries x ! c) (entries y ! c)))
                        (snd (display_px env (transform fr) cs (entries x ! c) (entries y ! c))))
                     (get_los_direction fr
                        (fst (display_px env (transform fr) cs (entries x ! c) (entries y ! c)))
                        (snd (display_px env (transform fr) cs (entries x ! c) (entries y ! c)))))
         \<and> (f_of_c S c \<in> set (casts s)) = (\<not> isnan (entries x ! c) \<and> \<not> isnan (entries y ! c)))
     \<and> binning r = None
     \<and> fullchip r = False
     \<and> rd_transform r = transform fr
     \<and> ResultType r = ''PixelRayCast''"
proof -
  let ?t = "transform fr"
  let ?x = "fst (explicit_display env ?t cs x y)"
  let ?y = "snd (explicit_display env ?t cs x y)"
  let ?vm = "map (\<lambda>(u, v). \<not> isnan u \<and> \<not> isnan v) (zip (entries x) (entries y))"
  have eq: "shape x = shape y" using shp by simp
  note F = explicit_display_facts[OF eq wf, where env = env and t = ?t and cs = cs]
  have pb: "pixel_batch env fr (Some (x, y)) bin cs = Inr (?x, ?y, ?vm, False)"
    using eq by (rule pixel_batch_explicit)
  have lx: "length (entries ?x) = np_size (shape ?x)" using F(1,2) by simp
  have ly: "length (entries ?y) = np_size (shape ?x)" using F(1,3) by simp
  have lv: "length ?vm = np_size (shape ?x)" using wf shp F(1) by (simp add: wf_array_def)
  have vm: "?vm ! c = (\<not> isnan (entries x ! c) \<and> \<not> isnan (entries y ! c))" if "c < np_size S" for c
    using that wf shp by (simp add: wf_array_def)
  from raycast_run_core[OF cfg pb sh lx ly lv]
  obtain r s rx ry where R: "raycast_run env rc (Some (x, y)) bin cs = Inr (r, s)"
     "shape (ray_end_coords r) = shape ?x @ [3]"
     "length (entries (ray_end_coords r)) = np_size (shape ?x) * 3"
     "shape (ray_start_coords r) = shape ?x @ [3]"
     "length (entries (ray_start_coords r)) = np_size (shape ?x) * 3"
     "rd_x r = Some rx" "rd_y r = Some ry"
     "shape rx = shape ?x" "shape ry = shape ?x"
     "length (entries rx) = np_size (shape ?x)" "length (entries ry) = np_size (shape ?x)"
     "\<forall>c<np_size (shape ?x).
           entries rx ! c = (if ?vm ! c then entries ?x ! c else NaN)
         \<and> entries ry ! c = (if ?vm ! c then entries ?y ! c else NaN)
         \<and> row (ray_start_coords r) c =
             (if ?vm ! c then get_pupilpos fr (entries ?x ! c) (entries ?y ! c) else nan3)
         \<and> row (ray_end_coords r) c =
             (if ?vm ! c then ray_end_of loc (max_ray_length rc)
                               (get_pupilpos fr (entries ?x ! c) (entries ?y ! c))
                               (get_los_direction fr (entries ?x ! c) (entries ?y ! c))
              else nan3)
         \<and> (f_of_c (shape ?x) c \<in> set (casts s)) = ?vm ! c"
     "binning r = (if False then Some bin else None)"
     "fullchip r = False"
     "rd_transform r = transform fr"
     "ResultType r = ''PixelRayCast''"
    by blast
  have sx: "shape ?x = S" using F(1) shp by simp
  have px: "entries ?x ! c = fst (display_px env ?t cs (entries x ! c) (entries y ! c))"
    "entries ?y ! c = snd (display_px env ?t cs (entries x ! c) (entries y ! c))"
    if "c < np_size S" for c
    using F(4,5)[where c = c] that shp by simp_all
  show ?thesis
    apply (rule exI[of _ r], rule exI[of _ s], rule exI[of _ rx], rule exI[of _ ry])
    using R(1-11) R(13-16) R(12)[unfolded sx] vm px
    by (simp add: sx)
qed

lemma demo_facts:
  "fitresults demo_caster = Some demo_fit"
  "vtkCellLocator demo_caster = Some demo_locator"
  "shape demo_x = [2, 2]" "shape demo_y = [2, 2]"
  "wf_array demo_x" "wf_array demo_y"
  "is_shuffle (random_shuffle demo_env)"
  by (simp_all add: demo_caster_def demo_x_def demo_y_def wf_array_def np_size_def
        is_shuffle_def demo_env_def)

section \<open>Claims about raycast_pixels\<close>

text \<open>
  Claim C1 (shape preservation). Given pixel arrays \<open>x\<close> and \<open>y\<close> of one shape \<open>S\<close>
  (of any number of axes, so also 1-D and 2-D), a configured caster returns a RayData
  whose \<open>ray_start_coords\<close> and \<open>ray_end_coords\<close> have shape \<open>S @ [3]\<close> and whose
  stored pixel arrays have shape \<open>S\<close>; each of the four arrays holds as many entries
  as its shape says.
\<close>

theorem raycast_pixels_shape:
  assumes "fitresults rc = Some fr" "vtkCellLocator rc = Some loc"
    and "shape x = S" "shape y = S"
    and "wf_array x" "wf_array y"
    and "is_shuffle (random_shuffle env)"
  shows "\<exists>r rx ry. raycast_pixels env rc (Some (x, y)) bin cs = Inr r
     \<and> shape (ray_start_coords r) = S @ [3] \<and> wf_array (ray_start_coords r)
     \<and> shape (ray_end_coords r) = S @ [3] \<and> wf_array (ray_end_coords r)
     \<and> rd_x r = Some rx \<and> shape rx = S \<and> wf_array rx
     \<and> rd_y r = Some ry \<and> shape ry = S \<and> wf_array ry"
proof -
  from raycast_run_explicit[OF assms, of bin cs]
  obtain r s rx ry where "raycast_run env rc (Some (x, y)) bin cs = Inr (r, s)"
    "shape (ray_end_coords r) = S @ [3]"
    "length (entries (ray_end_coords r)) = np_size S * 3"
    "shape (ray_start_coords r) = S @ [3]"
    "length (entries (ray_start_coords r)) = np_size S * 3"
    "rd_x r = Some rx" "rd_y r = Some ry"
    "shape rx = S" "shape ry = S"
    "length (entries rx) = np_size S" "length (entries ry) = np_size S"
    by blast
  then show ?thesis
    by (intro exI[of _ r] exI[of _ rx] exI[of _ ry])
       (simp add: raycast_pixels_def wf_array_def)
qed

theorem raycast_pixels_shape_witness:
  "fitresults demo_caster = Some demo_fit \<and> vtkCellLocator demo_caster = Some demo_locator
   \<and> shape demo_x = [2, 2] \<and> shape demo_y = [2, 2] \<and> wf_array demo_x \<and> wf_array demo_y
   \<and> is_shuffle (random_shuffle demo_env)
   \<and> (\<exists>r rx ry. raycast_pixels demo_env demo_caster (Some (demo_x, demo_y)) 1 Display = Inr r
     \<and> shape (ray_start_coords r) = [2, 2] @ [3] \<and> wf_array (ray_start_coords r)
     \<and> shape (ray_end_coords r) = [2, 2] @ [3] \<and> wf_array (ray_end_coords r)
     \<and> rd_x r = Some rx \<and> shape rx = [2, 2] \<and> wf_array rx
     \<and> rd_y r = Some ry \<and> shape ry = [2, 2] \<and> wf_array ry)"
  using raycast_pixels_shape[OF demo_facts, of 1 Display] demo_facts by blast

text \<open>
  Claim C2 (validity propagation), as the code has it: a pixel is invalid exactly
  when one of its input coordinates is NaN. For the pixel at C position \<open>c\<close> of the
  input: if it is invalid, \<^verbatim>\<open>IntersectWithLine\<close> is never called for it, its rows of
  \<open>ray_start_coords\<close> and \<open>ray_end_coords\<close> are all NaN and its stored coordinates are
  NaN, at the same position \<open>c\<close>. Otherwise it is cast, its stored coordinates are its
  display coordinates, its ray start is the pupil position and its ray end is what
  the loop body computes; so when the display coordinates and the pupil position are
  finite and the locator reports a hit at a finite point, all its outputs are finite.
\<close>

theorem raycast_pixels_validity:
  assumes "fitresults rc = Some fr" "vtkCellLocator rc = Some loc"
    and "shape x = S" "shape y = S"
    and "wf_array x" "wf_array y"
    and "is_shuffle (random_shuffle env)"
    and c: "c < np_size S"
  shows "\<exists>r s rx ry. raycast_run env rc (Some (x, y)) bin cs = Inr (r, s)
     \<and> rd_x r = Some rx \<and> rd_y r = Some ry
     \<and> (let (u, v) = display_px env (transform fr) cs (entries x ! c) (entries y ! c);
             start = get_pupilpos fr u v;
             dir = get_los_direction fr u v
         in if isnan (entries x ! c) \<or> isnan (entries y ! c)
            then f_of_c S c \<notin> set (casts s)
               \<and> row (ray_start_coords r) c = nan3 \<and> row (ray_end_coords r) c = nan3
               \<and> entries rx ! c = NaN \<and> entries ry ! c = NaN
            else f_of_c S c \<in> set (casts s)
               \<and> row (ray_start_coords r) c = start
               \<and> row (ray_end_coords r) c = ray_end_of loc (max_ray_length rc) start dir
               \<and> entries rx ! c = u \<and> entries ry ! c = v
               \<and> (isfinite u \<and> isfinite v \<and> finite3 start
                    \<and> (\<exists>pos. loc start (vadd start (smul (max_ray_length rc) dir)) = Some pos
                             \<and> finite3 pos)
                  \<longrightarrow> isfinite (entries rx ! c) \<and> isfinite (entries ry ! c)
                     \<and> finite3 (row (ray_start_coords r) c)
                     \<and> finite3 (row (ray_end_coords r) c)))"
proof -
  from raycast_run_explicit[OF assms(1-7), of bin cs]
  obtain r s rx ry where R: "raycast_run env rc (Some (x, y)) bin cs = Inr (r, s)"
    "rd_x r = Some rx" "rd_y r = Some ry"
    and P: "\<forall>c<np_size S.
           entries rx ! c = (if isnan (entries x ! c) \<or> isnan (entries y ! c) then NaN
                             else fst (display_px env (transform fr) cs (entries x ! c) (entries y ! c)))
         \<and> entries ry ! c = (if isnan (entries x ! c) \<or> isnan (entries y ! c) then NaN
                             else snd (display_px env (transform fr) cs (entries x ! c) (entries y ! c)))
         \<and> row (ray_start_coords r) c =
             (if isnan (entries x ! c) \<or> isnan (entries y ! c) then nan3
              else get_pupilpos fr
                     (fst (display_px env (transform fr) cs (entries x ! c) (entries y ! c)))
                     (snd (display_px env (transform fr) cs (entries x ! c) (entries y ! c))))
         \<and> row (ray_end_coords r) c =
             (if isnan (entries x ! c) \<or> isnan (entries y ! c) then nan3
              else ray_end_of loc (max_ray_length rc)
                     (get_pupilpos fr
                        (fst (display_px env (transform fr) cs (entries x ! c) (entries y ! c)))
                        (snd (display_px env (transform fr) cs (entries x ! c) (entries y ! c))))
                     (get_los_direction fr
                        (fst (display_px env (transform fr) cs (entries x ! c) (entries y ! c)))
                        (snd (display_px env (transform fr) cs (entries x ! c) (entries y ! c)))))
         \<and> (f_of_c S c \<in> set (casts s)) = (\<not> isnan (entries x ! c) \<and> \<not> isnan (entries y ! c))"
    by blast
  obtain u v where uv: "display_px env (transform fr) cs (entries x ! c) (entries y ! c) = (u, v)"
    by (cases "display_px env (transform fr) cs (entries x ! c) (entries y ! c)") auto
  note Pc = P[rule_format, OF c, unfolded uv fst_conv snd_conv]
  show ?thesis
    apply (rule exI[of _ r], rule exI[of _ s], rule exI[of _ rx], rule exI[of _ ry])
    using R Pc
    by (auto simp: Let_def uv ray_end_of_def)
qed

text \<open>
  Claim C3 (miss policy). For a valid pixel at position \<open>c\<close> whose maximal segment the
  locator reports as missed, the call returns normally and the stored ray end is
  exactly the stored ray start plus \<open>max_ray_length\<close> times the line-of-sight
  direction of the pixel.
\<close>

theorem raycast_pixels_miss:
  assumes "fitresults rc = Some fr" "vtkCellLocator rc = Some loc"
    and "shape x = S" "shape y = S"
    and "wf_array x" "wf_array y"
    and "is_shuffle (random_shuffle env)"
    and c: "c < np_size S"
    and valid: "\<not> isnan (entries x ! c)" "\<not> isnan (entries y ! c)"
    and px: "display_px env (transform fr) cs (entries x ! c) (entries y ! c) = (u, v)"
    and miss: "loc (get_pupilpos fr u v)
                 (vadd (get_pupilpos fr u v) (smul (max_ray_length rc) (get_los_direction fr u v)))
               = None"
  shows "\<exists>r. raycast_pixels env rc (Some (x, y)) bin cs = Inr r
     \<and> row (ray_start_coords r) c = get_pupilpos fr u v
     \<and> row (ray_end_coords r) c =
         vadd (row (ray_start_coords r) c) (smul (max_ray_length rc) (get_los_direction fr u v))"
proof -
  from raycast_run_explicit[OF assms(1-7), of bin cs]
  obtain r s where R: "raycast_run env rc (Some (x, y)) bin cs = Inr (r, s)"
    and P: "\<forall>c<np_size S.
           row (ray_start_coords r) c =
             (if isnan (entries x ! c) \<or> isnan (entries y ! c) then nan3
              else get_pupilpos fr
                     (fst (display_px env (transform fr) cs (entries x ! c) (entries y ! c)))
                     (snd (display_px env (transform fr) cs (entries x ! c) (entries y ! c))))
         \<and> row (ray_end_coords r) c =
             (if isnan (entries x ! c) \<or> isnan (entries y ! c) then nan3
              else ray_end_of loc (max_ray_length rc)
                     (get_pupilpos fr
                        (fst (display_px env (transform fr) cs (entries x ! c) (entries y ! c)))
                        (snd (display_px env (transform fr) cs (entries x ! c) (entries y ! c))))
                     (get_los_direction fr
                        (fst (display_px env (transform fr) cs (entries x ! c) (entries y ! c)))
                        (snd (display_px env (transform fr) cs (entries x ! c) (entries y ! c)))))"
    by blast
  show ?thesis
    apply (rule exI[of _ r])
    using R P[rule_format, OF c] valid px miss
    by (simp add: raycast_pixels_def ray_end_of_def)
qed

lemma demo_values:
  "entries demo_x ! 3 = Fin 2" "entries demo_y ! 3 = Fin 1"
  "entries demo_x ! 2 = NaN" "entries demo_y ! 2 = Fin 1"
  "entries demo_x ! 0 = Fin 0" "entries demo_y ! 0 = Fin 0"
  "transform demo_fit = demo_transform"
  "max_ray_length demo_caster = Fin 10"
  "get_pupilpos demo_fit u v = (Fin 0, Fin 0, Fin 0)"
  "get_los_direction demo_fit u v = (u, v, Fin 1)"
  "display_px demo_env t Display u v = (u, v)"
  by (simp_all add: demo_x_def demo_y_def demo_fit_def demo_caster_def display_px_def)

theorem raycast_pixels_validity_witness:
  "fitresults demo_caster = Some demo_fit \<and> vtkCellLocator demo_caster = Some demo_locator
   \<and> shape demo_x = [2, 2] \<and> shape demo_y = [2, 2] \<and> wf_array demo_x \<and> wf_array demo_y
   \<and> is_shuffle (random_shuffle demo_env) \<and> (3::nat) < np_size [2, 2]
   \<and> (\<exists>r s rx ry. raycast_run demo_env demo_caster (Some (demo_x, demo_y)) 1 Display = Inr (r, s)
        \<and> rd_x r = Some rx \<and> rd_y r = Some ry
        \<and> f_of_c [2, 2] 3 \<in> set (casts s)
        \<and> row (ray_start_coords r) 3 = (Fin 0, Fin 0, Fin 0)
        \<and> row (ray_end_coords r) 3 = (Fin 2, Fin 10, Fin 10)
        \<and> entries rx ! 3 = Fin 2 \<and> entries ry ! 3 = Fin 1
        \<and> isfinite (entries rx ! 3) \<and> isfinite (entries ry ! 3)
        \<and> finite3 (row (ray_start_coords r) 3) \<and> finite3 (row (ray_end_coords r) 3))
   \<and> (\<exists>r s rx ry. raycast_run demo_env demo_caster (Some (demo_x, demo_y)) 1 Display = Inr (r, s)
        \<and> rd_x r = Some rx \<and> rd_y r = Some ry
        \<and> f_of_c [2, 2] 2 \<notin> set (casts s)
        \<and> row (ray_start_coords r) 2 = nan3 \<and> row (ray_end_coords r) 2 = nan3
        \<and> entries rx ! 2 = NaN \<and> entries ry ! 2 = NaN)"
proof -
  have c1: "(3::nat) < np_size [2, 2]" and c2: "(2::nat) < np_size [2, 2]"
    by (simp_all add: np_size_def)
  have A: "\<exists>r s rx ry. raycast_run demo_env demo_caster (Some (demo_x, demo_y)) 1 Display = Inr (r, s)
        \<and> rd_x r = Some rx \<and> rd_y r = Some ry
        \<and> f_of_c [2, 2] 3 \<in> set (casts s)
        \<and> row (ray_start_coords r) 3 = (Fin 0, Fin 0, Fin 0)
        \<and> row (ray_end_coords r) 3 = (Fin 2, Fin 10, Fin 10)
        \<and> entries rx ! 3 = Fin 2 \<and> entries ry ! 3 = Fin 1
        \<and> isfinite (entries rx ! 3) \<and> isfinite (entries ry ! 3)
        \<and> finite3 (row (ray_start_coords r) 3) \<and> finite3 (row (ray_end_coords r) 3)"
    using raycast_pixels_validity[OF demo_facts c1, of 1 Display]
    by (simp add: demo_values isnan_def ray_end_of_def vadd_def smul_def demo_locator_def finite3_def)
  have B: "\<exists>r s rx ry. raycast_run demo_env demo_caster (Some (demo_x, demo_y)) 1 Display = Inr (r, s)
        \<and> rd_x r = Some rx \<and> rd_y r = Some ry
        \<and> f_of_c [2, 2] 2 \<notin> set (casts s)
        \<and> row (ray_start_coords r) 2 = nan3 \<and> row (ray_end_coords r) 2 = nan3
        \<and> entries rx ! 2 = NaN \<and> entries ry ! 2 = NaN"
    using raycast_pixels_validity[OF demo_facts c2, of 1 Display]
    by (simp add: demo_values isnan_def)
  show ?thesis using demo_facts c1 A B by blast
qed

text \<open>
  A pixel with an infinite coordinate is not finite, yet it is treated as valid: it
  is cast (index 0 is in the call log), and its stored coordinate is the infinity,
  not NaN.
\<close>

theorem raycast_pixels_nonfinite_counterexample:
  "isfinite PInf = False
   \<and> map_sum id (\<lambda>(r, s). (rd_x r, rd_y r, ray_start_coords r, ray_end_coords r, casts s))
       (raycast_run demo_env demo_caster
          (Some (\<lparr>shape = [1], entries = [PInf]\<rparr>, \<lparr>shape = [1], entries = [Fin 0]\<rparr>)) 1 Display)
     = Inr (Some \<lparr>shape = [1], entries = [PInf]\<rparr>,
            Some \<lparr>shape = [1], entries = [Fin 0]\<rparr>,
            \<lparr>shape = [1, 3], entries = [Fin 0, Fin 0, Fin 0]\<rparr>,
            \<lparr>shape = [1, 3], entries = [Fin 2, Fin 0, Fin 10]\<rparr>,
            [0])"
  by code_simp

theorem raycast_pixels_miss_witness:
  "fitresults demo_caster = Some demo_fit \<and> vtkCellLocator demo_caster = Some demo_locator
   \<and> shape demo_x = [2, 2] \<and> shape demo_y = [2, 2] \<and> wf_array demo_x \<and> wf_array demo_y
   \<and> is_shuffle (random_shuffle demo_env) \<and> (0::nat) < np_size [2, 2]
   \<and> \<not> isnan (entries demo_x ! 0) \<and> \<not> isnan (entries demo_y ! 0)
   \<and> display_px demo_env (transform demo_fit) Display (entries demo_x ! 0) (entries demo_y ! 0)
       = (Fin 0, Fin 0)
   \<and> demo_locator (get_pupilpos demo_fit (Fin 0) (Fin 0))
        (vadd (get_pupilpos demo_fit (Fin 0) (Fin 0))
           (smul (max_ray_length demo_caster) (get_los_direction demo_fit (Fin 0) (Fin 0)))) = None
   \<and> (\<exists>r. raycast_pixels demo_env demo_caster (Some (demo_x, demo_y)) 1 Display = Inr r
        \<and> row (ray_start_coords r) 0 = (Fin 0, Fin 0, Fin 0)
        \<and> row (ray_end_coords r) 0 = (Fin 0, Fin 0, Fin 10))"
proof -
  have c0: "(0::nat) < np_size [2, 2]" by (simp add: np_size_def)
  have v: "\<not> isnan (entries demo_x ! 0)" "\<not> isnan (entries demo_y ! 0)"
    by (simp_all add: demo_values isnan_def)
  have px: "display_px demo_env (transform demo_fit) Display (entries demo_x ! 0) (entries demo_y ! 0)
       = (Fin 0, Fin 0)"
    by (simp add: demo_values)
  have miss: "demo_locator (get_pupilpos demo_fit (Fin 0) (Fin 0))
        (vadd (get_pupilpos demo_fit (Fin 0) (Fin 0))
           (smul (max_ray_length demo_caster) (get_los_direction demo_fit (Fin 0) (Fin 0)))) = None"
    by (simp add: demo_values vadd_def smul_def demo_locator_def)
  have "\<exists>r. raycast_pixels demo_env demo_caster (Some (demo_x, demo_y)) 1 Display = Inr r
        \<and> row (ray_start_coords r) 0 = (Fin 0, Fin 0, Fin 0)
        \<and> row (ray_end_coords r) 0 = (Fin 0, Fin 0, Fin 10)"
    using raycast_pixels_miss[OF demo_facts c0 v px miss, of 1]
    by (auto simp: demo_values vadd_def smul_def)
  then show ?thesis using demo_facts c0 v px miss by blast
qed

text \<open>
  Claim C8 (order independence). Whatever permutation \<^verbatim>\<open>random.shuffle\<close> produces
  (the identity included), and whatever the fresh result array held before the loop,
  \<^verbatim>\<open>raycast_pixels\<close> returns the same value: the same RayData or the same error.
\<close>

theorem raycast_order_independent:
  assumes sh1: "is_shuffle (random_shuffle env)" and sh2: "is_shuffle sh"
  shows "raycast_pixels (env\<lparr>random_shuffle := sh, uninitialised := g\<rparr>) rc xy bin cs
         = raycast_pixels env rc xy bin cs"
proof (cases "fitresults rc")
  case None
  then show ?thesis by (simp add: raycast_pixels_def raycast_run_def)
next
  case (Some fr)
  note fr = this
  show ?thesis
  proof (cases "vtkCellLocator rc")
    case None
    then show ?thesis using fr by (simp add: raycast_pixels_def raycast_run_def)
  next
    case (Some loc)
    note loc = this
    let ?env' = "env\<lparr>random_shuffle := sh, uninitialised := g\<rparr>"
    show ?thesis
    proof (cases "pixel_batch env fr xy bin cs")
      case (Inl e)
      then show ?thesis using fr loc
        by (simp add: raycast_pixels_def raycast_run_def pixel_batch_env_irrelevant ebind_def)
    next
      case (Inr b)
      obtain x y vm full where b: "b = (x, y, vm, full)" by (cases b) auto
      define S where "S = shape x"
      define n where "n = np_size S"
      define x0 where "x0 = map (\<lambda>(v, ok). if ok then v else Fin 0) (zip (entries x) vm)"
      define y0 where "y0 = map (\<lambda>(v, ok). if ok then v else Fin 0) (zip (entries y) vm)"
      define xF where "xF = map (\<lambda>k. x0 ! c_of_f S k) [0..<n]"
      define yF where "yF = map (\<lambda>k. y0 ! c_of_f S k) [0..<n]"
      define maskF where "maskF = map (\<lambda>k. vm ! c_of_f S k) [0..<n]"
      define LOS where "LOS = rows_array (map (\<lambda>(u, v). get_los_direction fr u v) (zip xF yF))"
      define starts where "starts = rows_array (map (\<lambda>(u, v). get_pupilpos fr u v) (zip xF yF))"
      define s0 where "s0 = (\<lambda>garbage. \<lparr>st_ray_end_coords =
                   \<lparr>shape = [n, 3], entries = map garbage [0..<n * 3]\<rparr>,
                 st_ray_start_coords = starts,
                 n_done = 0,
                 casts = []\<rparr>)"
      define s where "s = (\<lambda>shf garbage. cast_loop loc (max_ray_length rc) LOS maskF (shf [0..<n]) (s0 garbage))"
      define xN where "xN = map (\<lambda>(v, ok). if ok then v else NaN) (zip xF maskF)"
      define yN where "yN = map (\<lambda>(v, ok). if ok then v else NaN) (zip yF maskF)"
      have run: "raycast_pixels (env\<lparr>random_shuffle := shf, uninitialised := garbage\<rparr>) rc xy bin cs =
         ebind (reshape_F (st_ray_end_coords (s shf garbage)) (S @ [3])) (\<lambda>rend.
         ebind (reshape_F (st_ray_start_coords (s shf garbage)) (S @ [3])) (\<lambda>rstart.
         ebind (reshape_F \<lparr>shape = [n], entries = xN\<rparr> S) (\<lambda>rx.
         ebind (reshape_F \<lparr>shape = [n], entries = yN\<rparr> S) (\<lambda>ry.
           Inr \<lparr>ray_end_coords = rend,
                 ray_start_coords = rstart,
                 binning = (if full then Some bin else None),
                 rd_transform = transform fr,
                 fullchip = full,
                 rd_x = Some rx,
                 rd_y = Some ry,
                 ResultType = ''PixelRayCast''\<rparr>))))" for shf garbage
        unfolding raycast_pixels_def raycast_run_def S_def n_def x0_def y0_def xF_def yF_def
          maskF_def LOS_def starts_def s0_def s_def xN_def yN_def
        using Inr b fr loc
        by (simp add: pixel_batch_env_irrelevant ebind_def Let_def reshape_F_list_flat
              split: sum.splits)
      have l0: "length (entries (st_ray_end_coords (s0 garbage))) = 3 * n"
        "length (entries (st_ray_start_coords (s0 garbage))) = 3 * n" for garbage
        by (simp_all add: s0_def starts_def xF_def yF_def)
      have st0: "st_ray_start_coords (s0 garbage) = starts"
        "shape (st_ray_end_coords (s0 garbage)) = [n, 3]" for garbage
        by (simp_all add: s0_def)
      have closed: "st_ray_end_coords (s shf garbage) =
             \<lparr>shape = [n, 3],
              entries = entries (rows_array (map (\<lambda>i. if maskF ! i
                          then ray_end_of loc (max_ray_length rc) (row starts i) (row LOS i)
                          else nan3) [0..<n]))\<rparr>
           \<and> st_ray_start_coords (s shf garbage) =
             \<lparr>shape = shape starts,
              entries = entries (rows_array (map (\<lambda>i. if maskF ! i
                          then row starts i else nan3) [0..<n]))\<rparr>"
        if "is_shuffle shf" for shf garbage
        unfolding s_def
        using cast_loop_arrays[OF l0(1)[of garbage] l0(2)[of garbage] is_shuffle_set[OF that],
            unfolded st0]
        by blast
      have arr: "st_ray_end_coords (s shf garbage) = st_ray_end_coords (s (random_shuffle env) (uninitialised env))
           \<and> st_ray_start_coords (s shf garbage) = st_ray_start_coords (s (random_shuffle env) (uninitialised env))"
        if "is_shuffle shf" for shf garbage
        using closed[OF that, of garbage] closed[OF sh1, of "uninitialised env"] by simp
      have "env = env\<lparr>random_shuffle := random_shuffle env, uninitialised := uninitialised env\<rparr>"
        by simp
      then have "raycast_pixels env rc xy bin cs =
          raycast_pixels (env\<lparr>random_shuffle := random_shuffle env, uninitialised := uninitialised env\<rparr>) rc xy bin cs"
        by simp
      then show ?thesis
        unfolding run using arr[OF sh2, of g] by simp
    qed
  qed
qed

theorem raycast_order_independent_witness:
  "is_shuffle (random_shuffle demo_env) \<and> is_shuffle (\<lambda>xs. xs)
   \<and> raycast_pixels (demo_env\<lparr>random_shuffle := (\<lambda>xs. xs), uninitialised := (\<lambda>k. NaN)\<rparr>)
        demo_caster (Some (demo_x, demo_y)) 1 Display
     = raycast_pixels demo_env demo_caster (Some (demo_x, demo_y)) 1 Display"
proof -
  have a: "is_shuffle (random_shuffle demo_env)" by (rule demo_facts)
  have b: "is_shuffle (\<lambda>xs. xs)" by (simp add: is_shuffle_def)
  show ?thesis using a b raycast_order_independent[OF a b] by blast
qed

text \<open>The whole result of the example cast, evaluated.\<close>

lemma demo_result: "raycast_pixels demo_env demo_caster (Some (demo_x, demo_y)) 1 Display
  = Inr \<lparr>ray_end_coords = \<lparr>shape = [2, 2, 3],
            entries = [Fin 0, Fin 0, Fin 10, Fin 2, Fin 10, Fin 10, NaN, NaN, NaN, Fin 2, Fin 10, Fin 10]\<rparr>,
          ray_start_coords = \<lparr>shape = [2, 2, 3],
            entries = [Fin 0, Fin 0, Fin 0, Fin 0, Fin 0, Fin 0, NaN, NaN, NaN, Fin 0, Fin 0, Fin 0]\<rparr>,
          binning = None, rd_transform = demo_transform, fullchip = False,
          rd_x = Some \<lparr>shape = [2, 2], entries = [Fin 0, Fin 3, NaN, Fin 2]\<rparr>,
          rd_y = Some \<lparr>shape = [2, 2], entries = [Fin 0, Fin 1, NaN, Fin 1]\<rparr>,
          ResultType = ''PixelRayCast''\<rparr>"
  by code_simp

section \<open>The queries\<close>

lemma fle_refl: "\<not> isnan a \<Longrightarrow> fle a a"
  by (cases a) (simp_all add: isnan_def)

lemma fle_trans: "fle a b \<Longrightarrow> fle b c \<Longrightarrow> fle a c"
  by (cases a; cases b; cases c) simp_all

lemma fle_total: "\<not> isnan a \<Longrightarrow> \<not> isnan b \<Longrightarrow> fle a b \<or> fle b a"
  by (cases a; cases b) (auto simp: isnan_def)




lemma foldl_np_minimum:
  "foldl np_minimum v ws = m \<Longrightarrow>
     (if isnan v \<or> (\<exists>w\<in>set ws. isnan w) then isnan m
      else \<not> isnan m \<and> m \<in> set (v # ws) \<and> (\<forall>w\<in>set (v # ws). fle m w))"
proof (induction ws arbitrary: v m)
  case Nil
  then show ?case by (auto simp: fle_refl)
next
  case (Cons w ws)
  let ?v' = "np_minimum v w"
  from Cons.prems have m: "foldl np_minimum ?v' ws = m" by simp
  note IH = Cons.IH[OF m]
  show ?case
  proof (cases "isnan v \<or> isnan w")
    case True
    then have "isnan ?v'" by (auto simp: np_minimum_def isnan_def)
    then show ?thesis using IH True by (auto split: if_splits)
  next
    case False
    then have nv: "\<not> isnan v" and nw: "\<not> isnan w" by auto
    have v'cases: "?v' = v \<and> fle v w \<or> ?v' = w \<and> fle w v"
      using nv nw fle_total[OF nv nw] by (auto simp: np_minimum_def)
    have nn: "\<not> isnan ?v'" using v'cases nv nw by auto
    show ?thesis
    proof (cases "\<exists>u\<in>set ws. isnan u")
      case True
      then show ?thesis using IH by (auto split: if_splits)
    next
      case False
      with IH nn have 1: "\<not> isnan m" "m \<in> set (?v' # ws)" "\<forall>x\<in>set (?v' # ws). fle m x"
        by (auto split: if_splits)
      have "fle m ?v'" using 1(3) by simp
      then have "fle m v" "fle m w" using v'cases by (auto intro: fle_trans)
      moreover have "m \<in> set (v # w # ws)" using 1(2) v'cases by auto
      ultimately show ?thesis using 1 nv nw False by auto
    qed
  qed
qed

lemma np_min_spec:
  assumes "vs \<noteq> []"
  shows "\<exists>m. np_min vs = Inr m \<and>
     (if \<exists>w\<in>set vs. isnan w then isnan m
      else \<not> isnan m \<and> m \<in> set vs \<and> (\<forall>w\<in>set vs. fle m w))"
proof -
  obtain v ws where vs: "vs = v # ws" using assms by (cases vs) auto
  show ?thesis using foldl_np_minimum[of v ws "foldl np_minimum v ws"]
    by (auto simp: np_min_def vs split: if_splits)
qed




lemma length_deltaR_of [simp]:
  "length (deltaR_of xs ys qx qy) = min (length xs) (length ys)"
  by (simp add: deltaR_of_def)



lemma query_loop_fail:
  assumes "\<And>k. k \<in> set ks \<Longrightarrow> (\<exists>v. body (f k) = Inr v) \<or> body (f k) = Inl e"
    and "\<exists>k\<in>set ks. body (f k) = Inl e"
  shows "query_loop body (map f ks) = Inl e"
  using assms
proof (induction ks)
  case Nil
  then show ?case by simp
next
  case (Cons k ks)
  show ?case
  proof (cases "body (f k)")
    case (Inl e')
    then have "e' = e" using Cons.prems(1)[of k] by auto
    then show ?thesis using Inl by (simp add: ebind_def)
  next
    case (Inr v)
    then have "\<exists>k\<in>set ks. body (f k) = Inl e" using Cons.prems(2) by auto
    then have "query_loop body (map f ks) = Inl e" using Cons.prems(1) by (intro Cons.IH) auto
    then show ?thesis using Inr by (simp add: ebind_def)
  qed
qed

lemma query_skeleton:
  "ebind (reshape_F_list Q [np_size Q] ex) (\<lambda>xq.
   ebind (reshape_F_list Q [np_size Q] ey) (\<lambda>yq.
   ebind (query_loop body (zip xq yq)) K))
   = ebind (query_loop body (flat_queries Q ex ey)) K"
  by (simp add: reshape_F_list_flat ebind_def flat_queries_def zip_map_map zip_same_conv_map o_def)


lemma flat_queries_fail:
  assumes "\<And>c. c < np_size Q \<Longrightarrow> (\<exists>v. body (ex ! c, ey ! c) = Inr v) \<or> body (ex ! c, ey ! c) = Inl e"
    and "c < np_size Q" "body (ex ! c, ey ! c) = Inl e"
  shows "query_loop body (flat_queries Q ex ey) = Inl e"
  unfolding flat_queries_def
proof (rule query_loop_fail)
  fix k assume "k \<in> set [0..<np_size Q]"
  then show "(\<exists>v. body (ex ! c_of_f Q k, ey ! c_of_f Q k) = Inr v) \<or> body (ex ! c_of_f Q k, ey ! c_of_f Q k) = Inl e"
    using assms(1)[of "c_of_f Q k"] by (simp add: c_of_f_less)
next
  have "f_of_c Q c \<in> set [0..<np_size Q]" using assms(2) by (simp add: f_of_c_less)
  moreover have "body (ex ! c_of_f Q (f_of_c Q c), ey ! c_of_f Q (f_of_c Q c)) = Inl e"
    using assms(2,3) by (simp add: c_of_f_of_c)
  ultimately show "\<exists>k\<in>set [0..<np_size Q]. body (ex ! c_of_f Q k, ey ! c_of_f Q k) = Inl e"
    by blast
qed


lemma get_ray_lengths_unfold:
  assumes "rd_x rd = Some sx" "rd_y rd = Some sy" "shape x = Q" "shape y = Q"
  shows "get_ray_lengths env rd (Some (x, y)) tol cs =
     ebind (query_loop
              (length_at (entries (RayLength_of rd)) (entries sx) (entries sy) tol)
              (flat_queries Q (entries (fst (explicit_display env (rd_transform rd) cs x y)))
                              (entries (snd (explicit_display env (rd_transform rd) cs x y)))))
       (\<lambda>RL. reshape_F \<lparr>shape = [np_size Q], entries = RL\<rparr> Q)"
proof -
  have s: "shape (fst (explicit_display env (rd_transform rd) cs x y)) = Q"
    using assms(3) by (simp add: explicit_display_def)
  show ?thesis
    unfolding get_ray_lengths_def query_skeleton[symmetric]
    using assms s
    by (simp add: Let_def explicit_display_def case_prod_beta)
qed

lemma sqrt_le_numeral: "0 \<le> b \<Longrightarrow> (sqrt a \<le> b) = (a \<le> b * b)"
  by (metis abs_of_nonneg power2_eq_square real_sqrt_abs real_sqrt_le_iff)

lemma sqrt_25: "sqrt 25 = 5" and sqrt_49: "sqrt 49 = 7"
  using real_sqrt_abs[of 5] real_sqrt_abs[of 7] by simp_all

lemma upt_2: "[0..<2] = [0, 1]" and upt_3: "[0..<3] = [0, 1, 2]" and upt_1: "[0..<1] = [0]"
  by (simp_all add: upt_rec)

lemma demo_lengths: "RayLength_of demo_rays = \<lparr>shape = [2], entries = [Fin 5, Fin 7]\<rparr>"
  by (simp add: RayLength_of_def demo_rays_def np_size_def fsub_def fsquare_def upt_2 upt_3
        sqrt_25 sqrt_49)




lemma wf_raydata_lengths:
  assumes "wf_raydata rd" "rd_x rd = Some sx" "rd_y rd = Some sy"
  shows "length (entries sx) = length (entries (RayLength_of rd))"
    and "length (entries sy) = length (entries (RayLength_of rd))"
    and "length (entries (ray_end_coords rd)) = 3 * length (entries (RayLength_of rd))"
    and "length (entries (ray_start_coords rd)) = 3 * length (entries (RayLength_of rd))"
    and "last (shape (ray_end_coords rd)) = 3"
  using assms by (auto simp: wf_raydata_def wf_array_def RayLength_of_def Let_def)

lemma explicit_display_query:
  assumes "shape x = Q" "shape y = Q" "wf_array x" "wf_array y" "c < np_size Q"
  shows "(entries (fst (explicit_display env (rd_transform rd) cs x y)) ! c,
          entries (snd (explicit_display env (rd_transform rd) cs x y)) ! c)
         = query_px env rd cs x y c"
  using explicit_display_facts(4,5)[of x y c env "rd_transform rd" cs] assms
  by (simp add: query_px_def)




lemma query_loop_Inr:
  "query_loop body (map f ks) = Inr vs \<Longrightarrow>
     length vs = length ks \<and> (\<forall>i<length ks. body (f (ks ! i)) = Inr (vs ! i))"
proof (induction ks arbitrary: vs)
  case Nil
  then show ?case by simp
next
  case (Cons k ks)
  from Cons.prems obtain v ws where v: "body (f k) = Inr v" "query_loop body (map f ks) = Inr ws"
    "vs = v # ws"
    by (auto simp: ebind_def split: sum.splits)
  from Cons.IH[OF v(2)] v(1,3) show ?case by (auto simp: nth_Cons split: nat.splits)
qed

lemma query_loop_Inl:
  "query_loop body (map f ks) = Inl e \<Longrightarrow> \<exists>k\<in>set ks. body (f k) = Inl e"
  by (induction ks) (auto simp: ebind_def split: sum.splits)

text \<open>
  Claim C6 (NaN query pixels), as the code has it, for \<^verbatim>\<open>get_ray_lengths\<close>: a query
  pixel with a NaN coordinate gets NaN in its slot of the result and never causes
  the failure of the query: when the query fails, the error comes from a pixel
  without NaN coordinates.
\<close>

theorem get_ray_lengths_nan_query:
  assumes st: "rd_x rd = Some sx" "rd_y rd = Some sy"
    and shp: "shape x = Q" "shape y = Q" and wfq: "wf_array x" "wf_array y"
  shows "case get_ray_lengths env rd (Some (x, y)) tol cs of
           Inr out \<Rightarrow>
             shape out = Q \<and> wf_array out
             \<and> (\<forall>c<np_size Q. isnan (fst (query_px env rd cs x y c))
                               \<or> isnan (snd (query_px env rd cs x y c))
                  \<longrightarrow> entries out ! c = NaN)
         | Inl e \<Rightarrow>
             (\<exists>c<np_size Q. \<not> isnan (fst (query_px env rd cs x y c))
                          \<and> \<not> isnan (snd (query_px env rd cs x y c))
                          \<and> length_at (entries (RayLength_of rd)) (entries sx) (entries sy) tol
                               (query_px env rd cs x y c) = Inl e)"
proof -
  let ?RL = "entries (RayLength_of rd)"
  let ?body = "length_at ?RL (entries sx) (entries sy) tol"
  let ?ex = "entries (fst (explicit_display env (rd_transform rd) cs x y))"
  let ?ey = "entries (snd (explicit_display env (rd_transform rd) cs x y))"
  let ?f = "\<lambda>k. (?ex ! c_of_f Q k, ?ey ! c_of_f Q k)"
  have un: "get_ray_lengths env rd (Some (x, y)) tol cs =
     ebind (query_loop ?body (flat_queries Q ?ex ?ey))
       (\<lambda>RL. reshape_F \<lparr>shape = [np_size Q], entries = RL\<rparr> Q)"
    using st shp by (rule get_ray_lengths_unfold)
  have q: "(?ex ! c, ?ey ! c) = query_px env rd cs x y c" if "c < np_size Q" for c
    using shp wfq that by (rule explicit_display_query)
  have nanq: "?body (u, v) = Inr NaN" if "isnan u \<or> isnan v" for u v
    using that by (simp add: length_at_def)
  show ?thesis
  proof (cases "query_loop ?body (flat_queries Q ?ex ?ey)")
    case (Inl e)
    then obtain k where k: "k < np_size Q" "?body (?f k) = Inl e"
      using query_loop_Inl[of ?body ?f "[0..<np_size Q]" e] by (auto simp: flat_queries_def)
    let ?c = "c_of_f Q k"
    have c: "?c < np_size Q" using k(1) by (rule c_of_f_less)
    have b: "?body (query_px env rd cs x y ?c) = Inl e" using k(2) q[OF c] by simp
    have "\<not> isnan (fst (query_px env rd cs x y ?c)) \<and> \<not> isnan (snd (query_px env rd cs x y ?c))"
      using b nanq[of "fst (query_px env rd cs x y ?c)" "snd (query_px env rd cs x y ?c)"]
      by auto
    then show ?thesis using Inl c b by (auto simp: un ebind_def)
  next
    case (Inr vs)
    from query_loop_Inr[of ?body ?f "[0..<np_size Q]" vs] Inr
    have vs: "length vs = np_size Q" "\<forall>i<np_size Q. ?body (?f i) = Inr (vs ! i)"
      by (auto simp: flat_queries_def)
    have res: "get_ray_lengths env rd (Some (x, y)) tol cs
        = Inr \<lparr>shape = Q, entries = map (\<lambda>c. vs ! f_of_c Q c) [0..<np_size Q]\<rparr>"
      using reshape_F_unflat[of vs Q] vs(1) by (simp add: un Inr ebind_def)
    have "entries \<lparr>shape = Q, entries = map (\<lambda>c. vs ! f_of_c Q c) [0..<np_size Q]\<rparr> ! c = NaN"
      if c: "c < np_size Q"
        and n: "isnan (fst (query_px env rd cs x y c)) \<or> isnan (snd (query_px env rd cs x y c))"
      for c
    proof -
      have f: "f_of_c Q c < np_size Q" using c by (rule f_of_c_less)
      have "?body (?f (f_of_c Q c)) = Inr (vs ! f_of_c Q c)" using vs(2) f by simp
      moreover have "?f (f_of_c Q c) = query_px env rd cs x y c"
        using q[OF c] c by (simp add: c_of_f_of_c)
      moreover have "?body (query_px env rd cs x y c) = Inr NaN"
        using nanq[of "fst (query_px env rd cs x y c)" "snd (query_px env rd cs x y c)"] n by simp
      ultimately show ?thesis using c by simp
    qed
    then show ?thesis by (simp add: res wf_array_def)
  qed
qed

lemma deltaR_nan:
  assumes "j < length xs" "j < length ys" "isnan (xs ! j) \<or> isnan (ys ! j)"
  shows "isnan (deltaR_of xs ys qx qy ! j)"
proof -
  have "isnan (fsqrt (fadd (fsquare (fsub (xs ! j) qx)) (fsquare (fsub (ys ! j) qy))))"
    using assms(3)
    by (cases "fsquare (fsub (xs ! j) qx)"; cases "fsquare (fsub (ys ! j) qy)")
       (auto simp: isnan_def fsub_def fsquare_def)
  then show ?thesis using assms(1,2) by (simp add: deltaR_of_def)
qed

lemma direction_at_nan_stored:
  assumes "length xs = length ys" "\<exists>v\<in>set xs \<union> set ys. isnan v"
  shows "direction_at dX dY dZ xs ys tol q = Inl NoNearbyRay"
proof -
  obtain qx qy where q: "q = (qx, qy)" by (cases q) auto
  let ?d = "deltaR_of xs ys qx qy"
  from assms obtain j where j: "j < length xs" "j < length ys" "isnan (xs ! j) \<or> isnan (ys ! j)"
    by (auto simp: in_set_conv_nth)
  have dj: "isnan (?d ! j)" using j by (rule deltaR_nan)
  have jl: "j < length ?d" using j by simp
  then have ne: "?d \<noteq> []" by (auto simp del: length_deltaR_of)
  have "?d ! j \<in> set ?d" using jl by (rule nth_mem)
  then have ex: "\<exists>w\<in>set ?d. isnan w" using dj by blast
  from np_min_spec[OF ne] ex obtain m where m: "np_min ?d = Inr m" "isnan m"
    by (auto split: if_splits)
  have "\<not> fle m tol" using m(2) by (simp add: isnan_def)
  then show ?thesis using m(1) by (simp add: direction_at_def q ebind_def Let_def)
qed

lemma ebind_Inr: "ebind (Inr v) f = f v" and ebind_Inl: "ebind (Inl e) f = Inl e"
  by (simp_all add: ebind_def)

lemma get_ray_directions_unfold:
  assumes "rd_x rd = Some sx" "rd_y rd = Some sy" "shape x = Q" "shape y = Q"
  shows "get_ray_directions env rd (Some (x, y)) tol cs =
     ebind (query_loop
              (direction_at (split_part (dirs_of rd (RayLength_of rd)) 0)
                 (split_part (dirs_of rd (RayLength_of rd)) 1)
                 (split_part (dirs_of rd (RayLength_of rd)) 2) (entries sx) (entries sy) tol)
              (flat_queries Q (entries (fst (explicit_display env (rd_transform rd) cs x y)))
                              (entries (snd (explicit_display env (rd_transform rd) cs x y)))))
       (\<lambda>out. reshape_F
            \<lparr>shape = [np_size Q * 3],
             entries = map fst out @ map (fst \<circ> snd) out @ map (snd \<circ> snd) out\<rparr>
            (Q @ [3]))"
proof -
  have s: "shape (fst (explicit_display env (rd_transform rd) cs x y)) = Q"
    using assms(3) by (simp add: explicit_display_def)
  have l: "get_ray_lengths env rd None (Fin 3) Display = Inr (RayLength_of rd)"
    by (simp add: get_ray_lengths_def Let_def)
  show ?thesis
    unfolding get_ray_directions_def query_skeleton[symmetric] l ebind_Inr
    using assms s
    by (simp add: Let_def explicit_display_def case_prod_beta)
qed

text \<open>
  Claim C9 (NaN among the stored pixel coordinates), as the code has it: if a stored
  pixel coordinate is NaN, every coordinate query of \<^verbatim>\<open>get_ray_directions\<close> with
  \<open>x\<close> and \<open>y\<close> of one shape and at least one query pixel fails with \<open>NoNearbyRay\<close>,
  whatever the coordinates, the tolerance and the coordinate system;
  \<^verbatim>\<open>get_ray_lengths\<close> can succeed on the same data: on stored pixels (10,10),
  (20,20) and (NaN,NaN), the query at (11,11) gives the length 5, while
  \<^verbatim>\<open>get_ray_directions\<close> fails.
\<close>

theorem get_ray_directions_nan_stored:
  assumes wf: "wf_raydata rd" and st: "rd_x rd = Some sx" "rd_y rd = Some sy"
    and nan: "\<exists>v\<in>set (entries sx) \<union> set (entries sy). isnan v"
    and shp: "shape x = Q" "shape y = Q"
    and pos: "0 < np_size Q"
  shows "get_ray_directions env rd (Some (x, y)) tol cs = Inl NoNearbyRay
       \<and> rd_x demo_rays_nan = Some \<lparr>shape = [3], entries = [Fin 10, Fin 20, NaN]\<rparr>
       \<and> rd_y demo_rays_nan = Some \<lparr>shape = [3], entries = [Fin 10, Fin 20, NaN]\<rparr>
       \<and> get_ray_directions demo_env demo_rays_nan (Some (px1 11, px1 11)) (Fin 3) Display
           = Inl NoNearbyRay
       \<and> get_ray_lengths demo_env demo_rays_nan (Some (px1 11, px1 11)) (Fin 3) Display
           = Inr \<lparr>shape = [1], entries = [Fin 5]\<rparr>"
proof -
  let ?dirs = "dirs_of rd (RayLength_of rd)"
  let ?body = "direction_at (split_part ?dirs 0) (split_part ?dirs 1) (split_part ?dirs 2)
                 (entries sx) (entries sy) tol"
  let ?ex = "entries (fst (explicit_display env (rd_transform rd) cs x y))"
  let ?ey = "entries (snd (explicit_display env (rd_transform rd) cs x y))"
  have len: "length (entries sx) = length (entries sy)"
    using wf_raydata_lengths(1,2)[OF wf st] by simp
  have body: "?body q = Inl NoNearbyRay" for q
    using len nan by (rule direction_at_nan_stored)
  have "query_loop ?body (flat_queries Q ?ex ?ey) = Inl NoNearbyRay"
  proof (rule flat_queries_fail[where c = 0])
    show "(\<exists>v. ?body (?ex ! c, ?ey ! c) = Inr v) \<or> ?body (?ex ! c, ?ey ! c) = Inl NoNearbyRay" for c
      using body by blast
    show "0 < np_size Q" by (rule pos)
    show "?body (?ex ! 0, ?ey ! 0) = Inl NoNearbyRay" by (rule body)
  qed
  then have general: "get_ray_directions env rd (Some (x, y)) tol cs = Inl NoNearbyRay"
    using get_ray_directions_unfold[OF st shp] by (simp add: ebind_def)
  have wfn: "wf_raydata demo_rays_nan"
    unfolding wf_raydata_def
    by (rule exI[of _ "[3]"]) (simp add: demo_rays_nan_def wf_array_def np_size_def)
  have stn: "rd_x demo_rays_nan = Some \<lparr>shape = [3], entries = [Fin 10, Fin 20, NaN]\<rparr>"
    "rd_y demo_rays_nan = Some \<lparr>shape = [3], entries = [Fin 10, Fin 20, NaN]\<rparr>"
    by (simp_all add: demo_rays_nan_def)
  have RLn: "RayLength_of demo_rays_nan = \<lparr>shape = [3], entries = [Fin 5, Fin 7, NaN]\<rparr>"
    by (simp add: RayLength_of_def demo_rays_nan_def np_size_def fsub_def fsquare_def upt_3
        sqrt_25 sqrt_49)
  have d1: "get_ray_directions demo_env demo_rays_nan (Some (px1 11, px1 11)) (Fin 3) Display
           = Inl NoNearbyRay"
    unfolding get_ray_directions_def get_ray_lengths_def RLn
    by (simp add: demo_rays_nan_def px1_def np_size_def reshape_F_list_def ebind_def
        f_of_c_def c_of_f_def direction_at_def isnan_def deltaR_of_def fsub_def fsquare_def
        np_min_def np_minimum_def upt_1)
  have l1: "get_ray_lengths demo_env demo_rays_nan (Some (px1 11, px1 11)) (Fin 3) Display
           = Inr \<lparr>shape = [1], entries = [Fin 5]\<rparr>"
    unfolding get_ray_lengths_def RLn
    by (simp add: demo_rays_nan_def px1_def np_size_def reshape_F_list_def reshape_F_def ebind_def
        f_of_c_def c_of_f_def length_at_def isnan_def deltaR_of_def fsub_def fsquare_def
        np_nanmin_def np_fmin_def np_nanargmin_def np_argmin_def fge_def sqrt_le_numeral upt_1)
  show ?thesis using general stn d1 l1 by simp
qed

text \<open>
  A query of no pixels runs the loop zero times: with a NaN among the stored
  coordinates it still returns (an empty array).
\<close>

theorem get_ray_directions_empty_query_counterexample:
  "rd_x demo_rays_nan = Some \<lparr>shape = [3], entries = [Fin 10, Fin 20, NaN]\<rparr>
   \<and> get_ray_directions demo_env demo_rays_nan (Some (empty_px, empty_px)) (Fin 3) Display
       = Inr \<lparr>shape = [0, 3], entries = []\<rparr>"
  by (simp add: get_ray_directions_def get_ray_lengths_def demo_rays_nan_def empty_px_def
      np_size_def reshape_F_list_def reshape_F_def ebind_def Let_def)

lemma concat_replicate3_nth:
  "i < length ls \<Longrightarrow> k < 3 \<Longrightarrow> concat (map (\<lambda>l. replicate 3 l) ls) ! (3 * i + k) = ls ! i"
proof (induction ls arbitrary: i)
  case Nil
  then show ?case by simp
next
  case (Cons l ls)
  show ?case
  proof (cases i)
    case 0
    then show ?thesis using Cons.prems by (simp add: nth_append)
  next
    case (Suc j)
    then have "3 * i + k = 3 + (3 * j + k)" by simp
    then show ?thesis using Cons Suc by (simp add: nth_append)
  qed
qed

lemma length_concat_replicate3 [simp]:
  "length (concat (map (\<lambda>l. replicate 3 l) ls)) = 3 * length ls"
  by (induction ls) simp_all

lemma fsub_self: "fsub a a = Fin 0 \<or> fsub a a = NaN"
  by (cases a) (simp_all add: fsub_def)

lemma zero_length_direction:
  assumes "a = Fin 0 \<or> a = NaN" "b = Fin 0 \<or> b = NaN" "c = Fin 0 \<or> c = NaN"
  shows "fdiv a (fsqrt (foldl fadd (Fin 0) [fsquare a, fsquare b, fsquare c])) = NaN"
    and "fdiv b (fsqrt (foldl fadd (Fin 0) [fsquare a, fsquare b, fsquare c])) = NaN"
    and "fdiv c (fsqrt (foldl fadd (Fin 0) [fsquare a, fsquare b, fsquare c])) = NaN"
  using assms by (auto simp: fsquare_def)

lemma dirs_entry:
  assumes wf: "wf_raydata rd" and i: "i < length (entries (RayLength_of rd))" and k: "k < 3"
  shows "entries (dirs_of rd (RayLength_of rd)) ! (3 * i + k)
         = fdiv (fsub (entries (ray_end_coords rd) ! (3 * i + k))
                      (entries (ray_start_coords rd) ! (3 * i + k)))
                (entries (RayLength_of rd) ! i)"
    and "length (entries (dirs_of rd (RayLength_of rd))) = 3 * length (entries (RayLength_of rd))"
proof -
  obtain S where S: "shape (ray_end_coords rd) = S @ [3]" "shape (ray_start_coords rd) = S @ [3]"
    "wf_array (ray_end_coords rd)" "wf_array (ray_start_coords rd)"
    using wf by (auto simp: wf_raydata_def)
  have n: "length (entries (RayLength_of rd)) = np_size S"
    using S by (simp add: RayLength_of_def Let_def)
  have le: "length (entries (ray_end_coords rd)) = 3 * np_size S"
    "length (entries (ray_start_coords rd)) = 3 * np_size S"
    using S by (simp_all add: wf_array_def)
  have j: "3 * i + k < 3 * np_size S" using i k n by simp
  show "entries (dirs_of rd (RayLength_of rd)) ! (3 * i + k)
         = fdiv (fsub (entries (ray_end_coords rd) ! (3 * i + k))
                      (entries (ray_start_coords rd) ! (3 * i + k)))
                (entries (RayLength_of rd) ! i)"
    using j le n i k by (simp add: dirs_of_def concat_replicate3_nth)
  show "length (entries (dirs_of rd (RayLength_of rd))) = 3 * length (entries (RayLength_of rd))"
    using le n by (simp add: dirs_of_def)
qed

lemma RayLength_entry:
  assumes wf: "wf_raydata rd" and i: "i < length (entries (RayLength_of rd))"
  shows "entries (RayLength_of rd) ! i
         = fsqrt (foldl fadd (Fin 0)
             [fsquare (fsub (entries (ray_end_coords rd) ! (3 * i)) (entries (ray_start_coords rd) ! (3 * i))),
              fsquare (fsub (entries (ray_end_coords rd) ! (3 * i + 1)) (entries (ray_start_coords rd) ! (3 * i + 1))),
              fsquare (fsub (entries (ray_end_coords rd) ! (3 * i + 2)) (entries (ray_start_coords rd) ! (3 * i + 2)))])"
proof -
  obtain S where S: "shape (ray_end_coords rd) = S @ [3]" "shape (ray_start_coords rd) = S @ [3]"
    "wf_array (ray_end_coords rd)" "wf_array (ray_start_coords rd)"
    using wf by (auto simp: wf_raydata_def)
  have n: "length (entries (RayLength_of rd)) = np_size S"
    using S by (simp add: RayLength_of_def Let_def)
  have le: "length (entries (ray_end_coords rd)) = 3 * np_size S"
    "length (entries (ray_start_coords rd)) = 3 * np_size S"
    using S by (simp_all add: wf_array_def)
  have j: "i * 3 < 3 * np_size S" "i * 3 + 1 < 3 * np_size S" "i * 3 + 2 < 3 * np_size S"
    using i n by simp_all
  show ?thesis
    using i n j le S(1)
    by (simp add: RayLength_of_def Let_def upt_3 mult.commute)
qed

lemma get_ray_lengths_all:
  "get_ray_lengths env rd None tol Display = Inr (RayLength_of rd)"
  by (simp add: get_ray_lengths_def Let_def)

text \<open>
  Claim C10 (division by a zero length). For a stored pixel whose ray start equals
  its ray end, the three direction components that \<^verbatim>\<open>get_ray_directions\<close> computes
  are NaN, and the call without query coordinates returns them, raising nothing. A
  coordinate query can return such a NaN direction: with a stored pixel at (10,10)
  whose start and end coincide, the query at (10,10) returns (NaN, NaN, NaN).
\<close>

theorem get_ray_directions_zero_length:
  assumes wf: "wf_raydata rd" and i: "i < length (entries (RayLength_of rd))"
    and eq: "row (ray_start_coords rd) i = row (ray_end_coords rd) i"
  shows "(\<exists>dirs. row dirs i = nan3
            \<and> get_ray_directions env rd None tol cs =
                Inr (if fullchip rd \<and> cs \<noteq> Display
                     then display_to_original_image env (rd_transform rd) dirs (binning rd)
                     else dirs))
       \<and> row (ray_start_coords demo_rays_zero) 0 = row (ray_end_coords demo_rays_zero) 0
       \<and> get_ray_directions demo_env demo_rays_zero (Some (px1 10, px1 10)) (Fin 3) Display
           = Inr \<lparr>shape = [1, 3], entries = [NaN, NaN, NaN]\<rparr>"
proof -
  let ?dirs = "dirs_of rd (RayLength_of rd)"
  let ?e = "\<lambda>j. entries (ray_end_coords rd) ! j"
  let ?s = "\<lambda>j. entries (ray_start_coords rd) ! j"
  have same: "?s (3 * i) = ?e (3 * i)" "?s (3 * i + 1) = ?e (3 * i + 1)"
    "?s (3 * i + 2) = ?e (3 * i + 2)"
    using eq by (simp_all add: row_def)
  define a where "a = fsub (?e (3 * i)) (?s (3 * i))"
  define b where "b = fsub (?e (3 * i + 1)) (?s (3 * i + 1))"
  define c where "c = fsub (?e (3 * i + 2)) (?s (3 * i + 2))"
  have abc: "a = Fin 0 \<or> a = NaN" "b = Fin 0 \<or> b = NaN" "c = Fin 0 \<or> c = NaN"
    unfolding a_def b_def c_def same by (rule fsub_self)+
  have L: "entries (RayLength_of rd) ! i = fsqrt (foldl fadd (Fin 0) [fsquare a, fsquare b, fsquare c])"
    unfolding a_def b_def c_def using wf i by (rule RayLength_entry)
  have d0: "entries ?dirs ! (3 * i) = fdiv a (entries (RayLength_of rd) ! i)"
    unfolding a_def using dirs_entry(1)[OF wf i, of 0] by simp
  have d1: "entries ?dirs ! (3 * i + 1) = fdiv b (entries (RayLength_of rd) ! i)"
    unfolding b_def using dirs_entry(1)[OF wf i, of 1] by simp
  have d2: "entries ?dirs ! (3 * i + 2) = fdiv c (entries (RayLength_of rd) ! i)"
    unfolding c_def using dirs_entry(1)[OF wf i, of 2] by simp
  have d: "entries ?dirs ! (3 * i) = NaN" "entries ?dirs ! (3 * i + 1) = NaN"
    "entries ?dirs ! (3 * i + 2) = NaN"
    unfolding d0 d1 d2 L by (rule zero_length_direction[OF abc])+
  have r: "row ?dirs i = nan3" using d by (simp add: row_def nan3_def)
  have l: "get_ray_lengths env rd None (Fin 3) Display = Inr (RayLength_of rd)"
    by (simp add: get_ray_lengths_def Let_def)
  have g: "get_ray_directions env rd None tol cs =
                Inr (if fullchip rd \<and> cs \<noteq> Display
                     then display_to_original_image env (rd_transform rd) ?dirs (binning rd)
                     else ?dirs)"
    unfolding get_ray_directions_def l ebind_Inr by (simp add: Let_def)
  have z0: "row (ray_start_coords demo_rays_zero) 0 = row (ray_end_coords demo_rays_zero) 0"
    by (simp add: demo_rays_zero_def row_def)
  have RLz: "RayLength_of demo_rays_zero = \<lparr>shape = [2], entries = [Fin 0, Fin 7]\<rparr>"
    by (simp add: RayLength_of_def demo_rays_zero_def np_size_def fsub_def fsquare_def upt_2 upt_3
        sqrt_49)
  have dz: "dirs_of demo_rays_zero \<lparr>shape = [2], entries = [Fin 0, Fin 7]\<rparr>
        = \<lparr>shape = [2, 3], entries = [NaN, NaN, NaN, Fin 1, Fin 0, Fin 0]\<rparr>"
    by (simp add: dirs_of_def demo_rays_zero_def fsub_def numeral_3_eq_3)
  have z1: "get_ray_directions demo_env demo_rays_zero (Some (px1 10, px1 10)) (Fin 3) Display
           = Inr \<lparr>shape = [1, 3], entries = [NaN, NaN, NaN]\<rparr>"
    unfolding get_ray_directions_def get_ray_lengths_all RLz ebind_Inr Let_def dz
    by (simp add: demo_rays_zero_def px1_def np_size_def reshape_F_list_def reshape_F_def
        ebind_def f_of_c_def c_of_f_def direction_at_def isnan_def deltaR_of_def fsub_def
        fsquare_def np_min_def np_minimum_def np_argmin_def fge_def split_part_def upt_1 upt_2 upt_3)
  show ?thesis using r g z0 z1 by blast
qed

subsection \<open>The claims at the examples\<close>

lemma demo_nan_query:
  "get_ray_lengths demo_env demo_rays (Some (px2 NaN (Fin 11), px2 (Fin 11) (Fin 11))) (Fin 3) Display
     = Inr \<lparr>shape = [2], entries = [NaN, Fin 5]\<rparr>"
  unfolding get_ray_lengths_def demo_lengths
  by (simp add: demo_rays_def px2_def np_size_def reshape_F_list_def reshape_F_def ebind_def
        f_of_c_def c_of_f_def length_at_def isnan_def deltaR_of_def fsub_def fsquare_def
        np_nanmin_def np_fmin_def np_nanargmin_def np_argmin_def fge_def sqrt_le_numeral upt_2)

theorem get_ray_lengths_nan_query_witness:
  "rd_x demo_rays = Some \<lparr>shape = [2], entries = [Fin 10, Fin 20]\<rparr>
   \<and> rd_y demo_rays = Some \<lparr>shape = [2], entries = [Fin 10, Fin 20]\<rparr>
   \<and> shape (px2 NaN (Fin 11)) = [2] \<and> shape (px2 (Fin 11) (Fin 11)) = [2]
   \<and> wf_array (px2 NaN (Fin 11)) \<and> wf_array (px2 (Fin 11) (Fin 11))
   \<and> (0::nat) < np_size [2]
   \<and> isnan (fst (query_px demo_env demo_rays Display (px2 NaN (Fin 11)) (px2 (Fin 11) (Fin 11)) 0))
   \<and> (\<exists>out. get_ray_lengths demo_env demo_rays
                (Some (px2 NaN (Fin 11), px2 (Fin 11) (Fin 11))) (Fin 3) Display = Inr out
          \<and> shape out = [2] \<and> wf_array out \<and> entries out ! 0 = NaN)"
proof -
  let ?s = "\<lparr>shape = [2], entries = [Fin 10, Fin 20]\<rparr>"
  let ?x = "px2 NaN (Fin 11)" and ?y = "px2 (Fin 11) (Fin 11)"
  have st: "rd_x demo_rays = Some ?s" "rd_y demo_rays = Some ?s"
    by (simp_all add: demo_rays_def)
  have shp: "shape ?x = [2]" "shape ?y = [2]" and wfq: "wf_array ?x" "wf_array ?y"
    by (simp_all add: px2_def wf_array_def np_size_def)
  have c: "(0::nat) < np_size [2]" by (simp add: np_size_def)
  have n: "isnan (fst (query_px demo_env demo_rays Display ?x ?y 0))"
    by (simp add: query_px_def display_px_def px2_def isnan_def)
  note T = get_ray_lengths_nan_query[OF st shp wfq, where env = demo_env and tol = "Fin 3" and cs = Display]
  obtain out where out: "get_ray_lengths demo_env demo_rays (Some (?x, ?y)) (Fin 3) Display = Inr out"
    using demo_nan_query by blast
  from T have "shape out = [2] \<and> wf_array out
             \<and> (\<forall>c<np_size [2]. isnan (fst (query_px demo_env demo_rays Display ?x ?y c))
                               \<or> isnan (snd (query_px demo_env demo_rays Display ?x ?y c))
                  \<longrightarrow> entries out ! c = NaN)"
    unfolding out by simp
  then have "shape out = [2]" "wf_array out" "entries out ! 0 = NaN"
    using c n by auto
  then show ?thesis using st shp wfq c n out by blast
qed

text \<open>
  An infinite query coordinate is not NaN: \<^verbatim>\<open>get_ray_lengths\<close> looks for a stored
  pixel near it and fails. \<^verbatim>\<open>get_ray_directions\<close> has no test for NaN at all and
  fails on a NaN query pixel.
\<close>

theorem query_nonfinite_counterexample:
  "isfinite PInf = False
   \<and> get_ray_lengths demo_env demo_rays
        (Some (\<lparr>shape = [1], entries = [PInf]\<rparr>, px1 10)) (Fin 3) Display = Inl NoNearbyRay
   \<and> get_ray_directions demo_env demo_rays
        (Some (\<lparr>shape = [1], entries = [NaN]\<rparr>, px1 10)) (Fin 3) Display = Inl NoNearbyRay"
proof -
  have a: "get_ray_lengths demo_env demo_rays
        (Some (\<lparr>shape = [1], entries = [PInf]\<rparr>, px1 10)) (Fin 3) Display = Inl NoNearbyRay"
    unfolding get_ray_lengths_def demo_lengths
    by (simp add: demo_rays_def px1_def np_size_def reshape_F_list_def reshape_F_def ebind_def
        f_of_c_def c_of_f_def length_at_def isnan_def deltaR_of_def fsub_def fsquare_def
        np_nanmin_def np_fmin_def upt_1)
  have b: "get_ray_directions demo_env demo_rays
        (Some (\<lparr>shape = [1], entries = [NaN]\<rparr>, px1 10)) (Fin 3) Display = Inl NoNearbyRay"
    unfolding get_ray_directions_def get_ray_lengths_all demo_lengths ebind_Inr Let_def
    by (simp add: demo_rays_def px1_def np_size_def reshape_F_list_def ebind_def
        f_of_c_def c_of_f_def direction_at_def isnan_def deltaR_of_def fsub_def fsquare_def
        np_min_def np_minimum_def upt_1)
  show ?thesis using a b by simp
qed

theorem get_ray_directions_nan_stored_witness:
  "wf_raydata demo_rays_nan
   \<and> rd_x demo_rays_nan = Some \<lparr>shape = [3], entries = [Fin 10, Fin 20, NaN]\<rparr>
   \<and> rd_y demo_rays_nan = Some \<lparr>shape = [3], entries = [Fin 10, Fin 20, NaN]\<rparr>
   \<and> isnan ([Fin 10, Fin 20, NaN] ! 2)
   \<and> shape (px1 11) = [1] \<and> (0::nat) < np_size [1]
   \<and> get_ray_directions demo_env demo_rays_nan (Some (px1 11, px1 11)) (Fin 3) Display
       = Inl NoNearbyRay"
proof -
  let ?s = "\<lparr>shape = [3], entries = [Fin 10, Fin 20, NaN]\<rparr>"
  have wfn: "wf_raydata demo_rays_nan"
    unfolding wf_raydata_def
    by (rule exI[of _ "[3]"]) (simp add: demo_rays_nan_def wf_array_def np_size_def)
  have st: "rd_x demo_rays_nan = Some ?s" "rd_y demo_rays_nan = Some ?s"
    by (simp_all add: demo_rays_nan_def)
  have nan: "\<exists>v\<in>set (entries ?s) \<union> set (entries ?s). isnan v" by (simp add: isnan_def)
  have shp: "shape (px1 11) = [1]" by (simp add: px1_def)
  have pos: "(0::nat) < np_size [1]" by (simp add: np_size_def)
  note T = get_ray_directions_nan_stored[OF wfn st nan shp shp pos,
      where env = demo_env and tol = "Fin 3" and cs = Display, THEN conjunct1]
  show ?thesis using wfn st shp pos T by (simp add: isnan_def)
qed

theorem get_ray_directions_zero_length_witness:
  "wf_raydata demo_rays_zero
   \<and> (0::nat) < length (entries (RayLength_of demo_rays_zero))
   \<and> row (ray_start_coords demo_rays_zero) 0 = row (ray_end_coords demo_rays_zero) 0
   \<and> (\<exists>dirs. row dirs 0 = nan3
          \<and> get_ray_directions demo_env demo_rays_zero None (Fin 3) Display = Inr dirs)"
proof -
  have wfz: "wf_raydata demo_rays_zero"
    unfolding wf_raydata_def
    by (rule exI[of _ "[2]"]) (simp add: demo_rays_zero_def wf_array_def np_size_def)
  have i: "(0::nat) < length (entries (RayLength_of demo_rays_zero))"
    by (simp add: RayLength_of_def demo_rays_zero_def np_size_def)
  have eq: "row (ray_start_coords demo_rays_zero) 0 = row (ray_end_coords demo_rays_zero) 0"
    by (simp add: demo_rays_zero_def row_def)
  from get_ray_directions_zero_length[OF wfz i eq,
      where env = demo_env and tol = "Fin 3" and cs = Display, THEN conjunct1]
  have "\<exists>dirs. row dirs 0 = nan3
          \<and> get_ray_directions demo_env demo_rays_zero None (Fin 3) Display = Inr dirs"
    by simp
  then show ?thesis using wfz i eq by blast
qed

section \<open>Saving and loading\<close>

lemma as_i4_exact: "is_i4 v \<Longrightarrow> as_i4 env v = v"
  by (cases v) (auto simp: is_i4_def as_i4_def to_i4_def trunc_def)

lemma map_as_i4_exact: "list_all is_i4 vs \<Longrightarrow> map (as_i4 env) vs = vs"
  by (induction vs) (simp_all add: as_i4_exact)

lemma int_to_i4_exact:
  "- 2147483648 \<le> b \<Longrightarrow> b \<le> 2147483647 \<Longrightarrow> int_to_i4 env b = b"
  by (simp add: int_to_i4_def to_i4_def trunc_def)

text \<open>
  Claim C7 (saving pixel arrays of more than two axes), as the code has it:
  \<^verbatim>\<open>save\<close> fails with \<open>UnsupportedShape\<close>; by then it has opened the destination
  for writing, so the destination is created or truncated and is left as a file that
  was never closed and holds no variable, only the three attributes and the
  dimension \<^verbatim>\<open>pointdim\<close>.
\<close>

theorem save_unsupported_shape:
  assumes "rd_x rd = Some sx" "2 < length (shape sx)"
  shows "save env fs rd SaveName
           = (Inl UnsupportedShape, fs(nc_path env SaveName \<mapsto> save_header rd))
       \<and> variables (save_header rd) = [] \<and> \<not> closed (save_header rd)"
  using assms by (simp add: save_def Let_def save_header_def)

theorem save_unsupported_shape_witness:
  "rd_x demo_rays_3d = Some \<lparr>shape = [1, 1, 1], entries = [Fin 10]\<rparr>
   \<and> 2 < length (shape \<lparr>shape = [1, 1, 1], entries = [Fin 10]\<rparr>)
   \<and> save demo_env Map.empty demo_rays_3d ''shot''
       = (Inl UnsupportedShape, [nc_path demo_env ''shot'' \<mapsto> save_header demo_rays_3d])
   \<and> variables (save_header demo_rays_3d) = [] \<and> \<not> closed (save_header demo_rays_3d)"
proof -
  have a: "rd_x demo_rays_3d = Some \<lparr>shape = [1, 1, 1], entries = [Fin 10]\<rparr>"
    by (simp add: demo_rays_3d_def)
  have b: "2 < length (shape \<lparr>shape = [1, 1, 1], entries = [Fin 10]\<rparr>)" by simp
  show ?thesis
    using a b save_unsupported_shape[OF a b, of demo_env Map.empty "''shot''"] by simp
qed

text \<open>
  On an empty file system the failed \<^verbatim>\<open>save\<close> leaves a file at the destination:
  a partial file is written.
\<close>

theorem save_leaves_file_counterexample:
  "Map.empty ''raydata/shot.nc'' = (None :: netcdf_file option)
   \<and> fst (save demo_env Map.empty demo_rays_3d ''shot'') = Inl UnsupportedShape
   \<and> snd (save demo_env Map.empty demo_rays_3d ''shot'') ''raydata/shot.nc''
       = Some \<lparr>attributes = [(''history'', ''CalCam_py output file''),
                             (''image_transform_actions'',
                                [CHR ''['', CHR 0x27] @ ''flip_up_down'' @ [CHR 0x27, CHR '']'']),
                             (''ResultType'', ''PixelRayCast'')],
               dimensions = [(''pointdim'', 3)],
               variables = [],
               closed = False\<rparr>"
  by (simp add: save_def Let_def save_header_def demo_rays_3d_def nc_path_def os_path_join_def
      demo_env_def demo_transform_def actions_string_def apostrophe_def)

lemma wf_raydata_shapes:
  assumes "wf_raydata rd" "rd_x rd = Some sx" "rd_y rd = Some sy"
  shows "shape (ray_end_coords rd) = shape sx @ [3]"
    and "shape (ray_start_coords rd) = shape sx @ [3]"
    and "shape sy = shape sx"
  using assms by (auto simp: wf_raydata_def)

lemma save_load:
  assumes wf: "wf_raydata rd" and st: "rd_x rd = Some sx" "rd_y rd = Some sy"
    and rank: "length (shape sx) = 1 \<or> length (shape sx) = 2"
  shows "fst (save env fs rd SaveName) = Inr ()"
    and "load env (snd (save env fs rd SaveName)) SaveName =
       Inr \<lparr>ray_end_coords = map_entries (round_f4 env) (ray_end_coords rd),
            ray_start_coords = map_entries (round_f4 env) (ray_start_coords rd),
            binning = loaded_binning env (binning rd),
            rd_transform = loaded_transform env (rd_transform rd),
            fullchip = (loaded_binning env (binning rd) \<noteq> None),
            rd_x = Some (map_entries (as_i4 env) sx),
            rd_y = Some (map_entries (as_i4 env) sy),
            ResultType = ResultType rd\<rparr>"
proof -
  note S = wf_raydata_shapes[OF wf st]
  show "fst (save env fs rd SaveName) = Inr ()"
    using st rank by (auto simp: save_def Let_def)
  from rank show "load env (snd (save env fs rd SaveName)) SaveName =
       Inr \<lparr>ray_end_coords = map_entries (round_f4 env) (ray_end_coords rd),
            ray_start_coords = map_entries (round_f4 env) (ray_start_coords rd),
            binning = loaded_binning env (binning rd),
            rd_transform = loaded_transform env (rd_transform rd),
            fullchip = (loaded_binning env (binning rd) \<noteq> None),
            rd_x = Some (map_entries (as_i4 env) sx),
            rd_y = Some (map_entries (as_i4 env) sy),
            ResultType = ResultType rd\<rparr>"
  proof
    assume r: "length (shape sx) = 1"
    then obtain n where n: "shape sx = [n]" by (cases "shape sx") auto
    show ?thesis
      using st S n
      by (simp add: save_def load_def Let_def save_header_def save_rest_def nc_attr_def nc_f4_def
          nc_i4_def ebind_def map_entries_def int_array_def as_i4_def loaded_binning_def
          loaded_transform_def o_def split: option.splits)
  next
    assume r: "length (shape sx) = 2"
    then obtain v u where n: "shape sx = [v, u]"
      by (cases "shape sx"; cases "tl (shape sx)") auto
    show ?thesis
      using st S n
      by (simp add: save_def load_def Let_def save_header_def save_rest_def nc_attr_def nc_f4_def
          nc_i4_def ebind_def map_entries_def int_array_def as_i4_def loaded_binning_def
          loaded_transform_def o_def split: option.splits)
  qed
qed

lemma length_concat_const: "length (concat (map (\<lambda>v. f v) ys)) = length ys * n"
  if "\<And>v. length (f v) = n"
  using that by (induction ys) simp_all

lemma meshgrid_lengths:
  "meshgrid xl yl = (x, y) \<Longrightarrow>
     shape x = [length yl, length xl] \<and> shape y = [length yl, length xl]
     \<and> length (entries x) = length yl * length xl \<and> length (entries y) = length yl * length xl"
  by (auto simp: meshgrid_def length_concat_const[where n = "length xl"])

lemma pixel_batch_lengths:
  assumes pb: "pixel_batch env fr xy bin cs = Inr (x, y, vm, full)"
    and wf: "case xy of Some (x0, y0) \<Rightarrow> wf_array x0 \<and> wf_array y0 | None \<Rightarrow> True"
  shows "length (entries x) = np_size (shape x)"
    and "length (entries y) = np_size (shape x)"
    and "length vm = np_size (shape x)"
proof -
  have "length (entries x) = np_size (shape x) \<and> length (entries y) = np_size (shape x)
        \<and> length vm = np_size (shape x)"
  proof (cases xy)
    case None
    obtain w h where wh: "(if cs = Display then image_display_shape fr
                         else (x_pixels (transform fr), y_pixels (transform fr))) = (w, h)"
      by (cases "if cs = Display then image_display_shape fr
                         else (x_pixels (transform fr), y_pixels (transform fr))") auto
    from pb None wh obtain xl yl where
      xl: "chip_axis env bin w = Inr xl" and yl: "chip_axis env bin h = Inr yl"
      and r: "(let (x, y) = meshgrid xl yl;
                            (x, y) = (if cs = Display then (x, y)
                                      else to_display env (transform fr) x y)
                        in Inr (x, y, replicate (np_size (shape x)) True, True))
              = (Inr (x, y, vm, full) :: error + (ndarray \<times> ndarray \<times> bool list \<times> bool))"
      by (auto simp: pixel_batch_def Let_def split: sum.splits prod.splits if_splits)
    obtain mx my where m: "meshgrid xl yl = (mx, my)" by (cases "meshgrid xl yl") auto
    note M = meshgrid_lengths[OF m]
    show ?thesis
    proof (cases "cs = Display")
      case True
      with r m have "x = mx" "y = my" "vm = replicate (np_size (shape mx)) True"
        by (auto simp: Let_def)
      then show ?thesis using M by (simp add: np_size_def)
    next
      case False
      with r m have x: "x = fst (to_display env (transform fr) mx my)"
        and y: "y = snd (to_display env (transform fr) mx my)"
        and v: "vm = replicate (np_size (shape x)) True"
        by (auto simp: Let_def split: prod.splits)
      show ?thesis using M by (simp add: x y v np_size_def)
    qed
  next
    case (Some p)
    obtain x0 y0 where p: "p = (x0, y0)" by (cases p) auto
    from wf Some p have w: "wf_array x0" "wf_array y0" by simp_all
    from pb Some p have eq: "shape x0 = shape y0"
      by (auto simp: pixel_batch_def split: if_splits)
    from pb Some p pixel_batch_explicit[OF eq, of env fr bin cs]
    have x: "x = fst (explicit_display env (transform fr) cs x0 y0)"
      and y: "y = snd (explicit_display env (transform fr) cs x0 y0)"
      and v: "vm = map (\<lambda>(u, v). \<not> isnan u \<and> \<not> isnan v) (zip (entries x0) (entries y0))"
      by simp_all
    note F = explicit_display_facts(1-3)[OF eq w, where env = env and t = "transform fr" and cs = cs]
    show ?thesis using F w eq by (simp add: x y v wf_array_def)
  qed
  then show "length (entries x) = np_size (shape x)"
    and "length (entries y) = np_size (shape x)"
    and "length vm = np_size (shape x)" by simp_all
qed

lemma raycast_pixels_wf:
  assumes r: "raycast_pixels env rc xy bin cs = Inr rd"
    and sh: "is_shuffle (random_shuffle env)"
    and wf: "case xy of Some (x0, y0) \<Rightarrow> wf_array x0 \<and> wf_array y0 | None \<Rightarrow> True"
  shows "wf_raydata rd \<and> (\<exists>sx sy. rd_x rd = Some sx \<and> rd_y rd = Some sy)
       \<and> (binning rd = None \<or> binning rd = Some bin \<and> bin \<noteq> 0)"
proof -
  from r obtain fr where fr: "fitresults rc = Some fr"
    by (cases "fitresults rc") (auto simp: raycast_pixels_def raycast_run_def)
  from r fr obtain loc where loc: "vtkCellLocator rc = Some loc"
    by (cases "vtkCellLocator rc") (auto simp: raycast_pixels_def raycast_run_def)
  from r fr loc obtain b where b: "pixel_batch env fr xy bin cs = Inr b"
    by (cases "pixel_batch env fr xy bin cs")
       (auto simp: raycast_pixels_def raycast_run_def ebind_def)
  obtain x y vm full where bb: "b = (x, y, vm, full)" by (cases b) auto
  note pb = b[unfolded bb]
  note L = pixel_batch_lengths[OF pb wf]
  from raycast_run_core[OF fr loc pb sh L]
  obtain r' s rx ry where R: "raycast_run env rc xy bin cs = Inr (r', s)"
     "shape (ray_end_coords r') = shape x @ [3]"
     "length (entries (ray_end_coords r')) = np_size (shape x) * 3"
     "shape (ray_start_coords r') = shape x @ [3]"
     "length (entries (ray_start_coords r')) = np_size (shape x) * 3"
     "rd_x r' = Some rx" "rd_y r' = Some ry"
     "shape rx = shape x" "shape ry = shape x"
     "length (entries rx) = np_size (shape x)" "length (entries ry) = np_size (shape x)"
     "binning r' = (if full then Some bin else None)"
    by blast
  have nz: "bin \<noteq> 0" if "full"
  proof
    assume z: "bin = 0"
    have "chip_axis env bin n = Inl ZeroDivisionError" for n by (simp add: chip_axis_def z)
    then have "\<not> full" using pb
      by (cases xy) (auto simp: pixel_batch_def Let_def split: prod.splits if_splits)
    with that show False by simp
  qed
  from r R(1) have "rd = r'" by (simp add: raycast_pixels_def)
  with R nz show ?thesis
    unfolding wf_raydata_def
    by (auto simp: wf_array_def intro!: exI[of _ "shape x"])
qed

lemma map_entries_id: "map g (entries a) = entries a \<Longrightarrow> map_entries g a = a"
  by (simp add: map_entries_def)

text \<open>
  Claim C5 (round trip), as the code has it. For RayData returned by
  \<^verbatim>\<open>raycast_pixels\<close> with pixel arrays of one or two axes, none of length zero,
  \<^verbatim>\<open>save\<close> succeeds and \<^verbatim>\<open>load\<close> of the written file returns: the ray starts and
  ray ends with every entry rounded to the single precision of their \<^verbatim>\<open>'f4'\<close>
  variables, in the original shape; the pixel coordinates converted to 32-bit
  integers, hence the original ones exactly when these are whole numbers in that
  range; the binning, when it is a 32-bit value; the ResultType; and the coordinate
  transform with its pixel counts as 32-bit integers, its aspect ratio in single
  precision and its actions as read back from the stored string.
\<close>

theorem save_load_roundtrip:
  assumes r: "raycast_pixels env rc xy bin cs = Inr rd"
    and sh: "is_shuffle (random_shuffle env)"
    and wf: "case xy of Some (x0, y0) \<Rightarrow> wf_array x0 \<and> wf_array y0 | None \<Rightarrow> True"
    and st: "rd_x rd = Some sx" "rd_y rd = Some sy"
    and rank: "length (shape sx) = 1 \<or> length (shape sx) = 2"
    and nz: "0 \<notin> set (shape sx)"
  shows "\<exists>fs' rd'. save env fs rd SaveName = (Inr (), fs') \<and> load env fs' SaveName = Inr rd'
     \<and> ray_start_coords rd' = map_entries (round_f4 env) (ray_start_coords rd)
     \<and> ray_end_coords rd' = map_entries (round_f4 env) (ray_end_coords rd)
     \<and> rd_x rd' = Some (map_entries (as_i4 env) sx)
     \<and> rd_y rd' = Some (map_entries (as_i4 env) sy)
     \<and> (list_all is_i4 (entries sx) \<longrightarrow> rd_x rd' = Some sx)
     \<and> (list_all is_i4 (entries sy) \<longrightarrow> rd_y rd' = Some sy)
     \<and> (in_i4 bin \<longrightarrow> binning rd' = binning rd)
     \<and> transform_actions (rd_transform rd')
         = read_transform_actions env (actions_string (transform_actions (rd_transform rd)))
     \<and> x_pixels (rd_transform rd') = int_to_i4 env (x_pixels (rd_transform rd))
     \<and> y_pixels (rd_transform rd') = int_to_i4 env (y_pixels (rd_transform rd))
     \<and> (in_i4 (x_pixels (rd_transform rd)) \<longrightarrow>
          x_pixels (rd_transform rd') = x_pixels (rd_transform rd))
     \<and> (in_i4 (y_pixels (rd_transform rd)) \<longrightarrow>
          y_pixels (rd_transform rd') = y_pixels (rd_transform rd))
     \<and> pixel_aspectratio (rd_transform rd') = round_f4 env (pixel_aspectratio (rd_transform rd))
     \<and> ResultType rd' = ResultType rd"
proof -
  from raycast_pixels_wf[OF r sh wf]
  have w: "wf_raydata rd" and b: "binning rd = None \<or> binning rd = Some bin \<and> bin \<noteq> 0"
    by simp_all
  note SL = save_load[OF w st rank, of env fs SaveName]
  define fs' where "fs' = snd (save env fs rd SaveName)"
  define rd' where "rd' = \<lparr>ray_end_coords = map_entries (round_f4 env) (ray_end_coords rd),
            ray_start_coords = map_entries (round_f4 env) (ray_start_coords rd),
            binning = loaded_binning env (binning rd),
            rd_transform = loaded_transform env (rd_transform rd),
            fullchip = (loaded_binning env (binning rd) \<noteq> None),
            rd_x = Some (map_entries (as_i4 env) sx),
            rd_y = Some (map_entries (as_i4 env) sy),
            ResultType = ResultType rd\<rparr>"
  have s: "save env fs rd SaveName = (Inr (), fs')"
    using SL(1) by (simp add: fs'_def prod_eq_iff)
  have l: "load env fs' SaveName = Inr rd'"
    using SL(2) by (simp add: fs'_def rd'_def)
  have bx: "in_i4 bin \<Longrightarrow> loaded_binning env (binning rd) = binning rd"
    using b by (auto simp: loaded_binning_def in_i4_def int_to_i4_exact)
  have px: "list_all is_i4 (entries a) \<Longrightarrow> map_entries (as_i4 env) a = a" for a
    by (rule map_entries_id) (rule map_as_i4_exact)
  show ?thesis
    apply (rule exI[of _ fs'], rule exI[of _ rd'])
    using s l bx px
    by (simp add: rd'_def loaded_transform_def in_i4_def int_to_i4_exact)
qed

text \<open>
  A pixel at x = 0.5, cast and saved, comes back at x = 0, although single precision
  holds 0.5 exactly: the pixel variables are \<^verbatim>\<open>'i4'\<close>.
\<close>

theorem save_load_pixel_counterexample:
  "raycast_pixels demo_env demo_caster (Some (px1 (1 / 2), px1 0)) 1 Display = Inr demo_cast_half
   \<and> rd_x demo_cast_half = Some \<lparr>shape = [1], entries = [Fin (1 / 2)]\<rparr>
   \<and> round_f4 demo_env (Fin (1 / 2)) = Fin (1 / 2)
   \<and> fst (save demo_env Map.empty demo_cast_half ''shot'') = Inr ()
   \<and> map_sum id rd_x (load demo_env (snd (save demo_env Map.empty demo_cast_half ''shot'')) ''shot'')
       = Inr (Some \<lparr>shape = [1], entries = [Fin 0]\<rparr>)"
  by code_simp

lemma whole_cast:
  "raycast_pixels demo_env demo_caster (Some (px2 (Fin 1) (Fin 2), px2 (Fin 0) (Fin 0))) 1 Display
     = Inr demo_cast_whole"
  by code_simp

theorem save_load_roundtrip_witness:
  "raycast_pixels demo_env demo_caster (Some (px2 (Fin 1) (Fin 2), px2 (Fin 0) (Fin 0))) 1 Display
     = Inr demo_cast_whole
   \<and> is_shuffle (random_shuffle demo_env)
   \<and> wf_array (px2 (Fin 1) (Fin 2)) \<and> wf_array (px2 (Fin 0) (Fin 0))
   \<and> rd_x demo_cast_whole = Some (px2 (Fin 1) (Fin 2))
   \<and> rd_y demo_cast_whole = Some (px2 (Fin 0) (Fin 0))
   \<and> length (shape (px2 (Fin 1) (Fin 2))) = 1
   \<and> 0 \<notin> set (shape (px2 (Fin 1) (Fin 2)))
   \<and> list_all is_i4 (entries (px2 (Fin 1) (Fin 2)))
   \<and> list_all is_i4 (entries (px2 (Fin 0) (Fin 0)))
   \<and> in_i4 1 \<and> in_i4 (x_pixels (rd_transform demo_cast_whole))
   \<and> in_i4 (y_pixels (rd_transform demo_cast_whole))
   \<and> (\<exists>fs' rd'. save demo_env Map.empty demo_cast_whole ''shot'' = (Inr (), fs')
         \<and> load demo_env fs' ''shot'' = Inr rd'
         \<and> ray_start_coords rd' = ray_start_coords demo_cast_whole
         \<and> ray_end_coords rd' = ray_end_coords demo_cast_whole
         \<and> rd_x rd' = Some (px2 (Fin 1) (Fin 2))
         \<and> rd_y rd' = Some (px2 (Fin 0) (Fin 0))
         \<and> binning rd' = binning demo_cast_whole
         \<and> transform_actions (rd_transform rd') = [''flip_up_down'']
         \<and> x_pixels (rd_transform rd') = 4
         \<and> y_pixels (rd_transform rd') = 2
         \<and> pixel_aspectratio (rd_transform rd') = Fin 1
         \<and> ResultType rd' = ''PixelRayCast'')"
proof -
  have sh: "is_shuffle (random_shuffle demo_env)" by (rule demo_facts)
  have wfx: "wf_array (px2 (Fin 1) (Fin 2))" "wf_array (px2 (Fin 0) (Fin 0))"
    by (simp_all add: px2_def wf_array_def np_size_def)
  have wf: "case Some (px2 (Fin 1) (Fin 2), px2 (Fin 0) (Fin 0)) of
              Some (x0, y0) \<Rightarrow> wf_array x0 \<and> wf_array y0 | None \<Rightarrow> True"
    using wfx by simp
  have st: "rd_x demo_cast_whole = Some (px2 (Fin 1) (Fin 2))"
    "rd_y demo_cast_whole = Some (px2 (Fin 0) (Fin 0))"
    by (simp_all add: demo_cast_whole_def)
  have rank: "length (shape (px2 (Fin 1) (Fin 2))) = 1 \<or> length (shape (px2 (Fin 1) (Fin 2))) = 2"
    and rank1: "length (shape (px2 (Fin 1) (Fin 2))) = 1"
    and nz: "0 \<notin> set (shape (px2 (Fin 1) (Fin 2)))"
    by (simp_all add: px2_def)
  have i4: "list_all is_i4 (entries (px2 (Fin 1) (Fin 2)))"
    "list_all is_i4 (entries (px2 (Fin 0) (Fin 0)))"
    by (simp_all add: px2_def is_i4_def)
  have rng: "in_i4 1" "in_i4 (x_pixels (rd_transform demo_cast_whole))"
    "in_i4 (y_pixels (rd_transform demo_cast_whole))"
    by (simp_all add: in_i4_def demo_cast_whole_def demo_transform_def)
  have vals: "map_entries (round_f4 demo_env) a = a"
    "round_f4 demo_env v = v" "read_transform_actions demo_env s = [''flip_up_down'']"
    "int_to_i4 demo_env (x_pixels (rd_transform demo_cast_whole)) = 4"
    "int_to_i4 demo_env (y_pixels (rd_transform demo_cast_whole)) = 2"
    "pixel_aspectratio (rd_transform demo_cast_whole) = Fin 1"
    "ResultType demo_cast_whole = ''PixelRayCast''" for a v s
    by (simp_all add: map_entries_def demo_env_def demo_cast_whole_def demo_transform_def
        int_to_i4_def to_i4_def trunc_def)
  from save_load_roundtrip[OF whole_cast sh wf st rank nz, of Map.empty "''shot''"]
  obtain fs' rd' where R: "save demo_env Map.empty demo_cast_whole ''shot'' = (Inr (), fs')"
    "load demo_env fs' ''shot'' = Inr rd'"
    "ray_start_coords rd' = map_entries (round_f4 demo_env) (ray_start_coords demo_cast_whole)"
    "ray_end_coords rd' = map_entries (round_f4 demo_env) (ray_end_coords demo_cast_whole)"
    "list_all is_i4 (entries (px2 (Fin 1) (Fin 2))) \<longrightarrow> rd_x rd' = Some (px2 (Fin 1) (Fin 2))"
    "list_all is_i4 (entries (px2 (Fin 0) (Fin 0))) \<longrightarrow> rd_y rd' = Some (px2 (Fin 0) (Fin 0))"
    "in_i4 1 \<longrightarrow> binning rd' = binning demo_cast_whole"
    "transform_actions (rd_transform rd')
       = read_transform_actions demo_env
           (actions_string (transform_actions (rd_transform demo_cast_whole)))"
    "x_pixels (rd_transform rd') = int_to_i4 demo_env (x_pixels (rd_transform demo_cast_whole))"
    "y_pixels (rd_transform rd') = int_to_i4 demo_env (y_pixels (rd_transform demo_cast_whole))"
    "pixel_aspectratio (rd_transform rd')
       = round_f4 demo_env (pixel_aspectratio (rd_transform demo_cast_whole))"
    "ResultType rd' = ResultType demo_cast_whole"
    by blast
  have "\<exists>fs' rd'. save demo_env Map.empty demo_cast_whole ''shot'' = (Inr (), fs')
         \<and> load demo_env fs' ''shot'' = Inr rd'
         \<and> ray_start_coords rd' = ray_start_coords demo_cast_whole
         \<and> ray_end_coords rd' = ray_end_coords demo_cast_whole
         \<and> rd_x rd' = Some (px2 (Fin 1) (Fin 2))
         \<and> rd_y rd' = Some (px2 (Fin 0) (Fin 0))
         \<and> binning rd' = binning demo_cast_whole
         \<and> transform_actions (rd_transform rd') = [''flip_up_down'']
         \<and> x_pixels (rd_transform rd') = 4
         \<and> y_pixels (rd_transform rd') = 2
         \<and> pixel_aspectratio (rd_transform rd') = Fin 1
         \<and> ResultType rd' = ''PixelRayCast''"
    apply (rule exI[of _ fs'], rule exI[of _ rd'])
    using R i4 rng by (simp add: vals)
  then show ?thesis
    using whole_cast sh wfx st rank1 nz i4 rng by blast
qed

end
